theory Spec2Isabelle
  imports Complex_Main
begin

section \<open>Exceptions and log output\<close>

text \<open>
  The exceptions the blocks raise. The first three are eckit's, with the message given
  to their constructor. \<open>FieldNotFound\<close> is what atlas raises when a field set is asked
  for a name it does not hold. \<open>OutOfBounds\<close> stands for an array view read or written
  outside its shape: atlas checks indices only in bounds-checking builds and the access is
  undefined otherwise, so no theorem below relies on what follows such an access.
\<close>

datatype exception =
    Exception string
  | UserError string
  | FunctionalityNotSupported string
  | FieldNotFound string
  | OutOfBounds

text \<open>A line written to \<open>Log::error()\<close> or \<open>Log::test()\<close>.\<close>

type_synonym log = "string list"

section \<open>SaberCentralBlockFactory (SaberCentralBlockBase.cc)\<close>

text \<open>
  \<open>getMakers()\<close> is a process-wide \<open>std::map\<close> from block names to factories. The
  state threaded through the factory operations holds this map, the error log, and the
  blocks constructed so far (each call of a maker's \<open>make\<close> constructs one).
\<close>

record ('m, 'b) registry =
  makers :: "string \<rightharpoonup> 'm"
  errorLog :: log
  constructed :: "'b list"

definition SaberCentralBlockFactory ::
  "string \<Rightarrow> 'm \<Rightarrow> ('m, 'b) registry \<Rightarrow> (exception + unit) \<times> ('m, 'b) registry" where
  "SaberCentralBlockFactory name this st =
     (if makers st name \<noteq> None
      then (Inl (Exception ''Element already registered in saber::SaberCentralBlockFactory.''),
            st\<lparr>errorLog := errorLog st @
                 [name @ '' already registered in saber::SaberCentralBlockFactory.'']\<rparr>)
      else (Inr (), st\<lparr>makers := (makers st)(name \<mapsto> this)\<rparr>))"

text \<open>
  \<open>create\<close> reads the block name \<open>blockId\<close> from the parameters (\<open>saberBlockName\<close>), looks it up and
  calls the maker found; \<open>mk\<close> is the maker's virtual \<open>make\<close>, a parameter here.
\<close>

definition create ::
  "('m \<Rightarrow> 'a \<Rightarrow> 'b) \<Rightarrow> 'a \<Rightarrow> string \<Rightarrow> ('m, 'b) registry \<Rightarrow>
     (exception + 'b) \<times> ('m, 'b) registry" where
  "create mk args blockId st =
     (case makers st blockId of
        None \<Rightarrow>
          (Inl (UserError ''Element does not exist in saber::SaberCentralBlockFactory.''),
           st\<lparr>errorLog := errorLog st @
                [blockId @ '' does not exist in saber::SaberCentralBlockFactory.'']\<rparr>)
      | Some jsb \<Rightarrow>
          (let ptr = mk jsb args in (Inr ptr, st\<lparr>constructed := constructed st @ [ptr]\<rparr>)))"

section \<open>SpectralCorrelation: randomize\<close>

text \<open>
  \<open>randomize\<close> takes the field set by reference; the model returns the field set as it is
  when the exception leaves the function, together with the error log.
\<close>

definition randomize :: "'fs \<Rightarrow> log \<Rightarrow> (exception + unit) \<times> 'fs \<times> log" where
  "randomize fieldSet lg =
     (Inl (FunctionalityNotSupported ''use ID and square root of spectral correlation instead.''),
      fieldSet,
      lg @ [''randomization with spectral correlation saber block'' @
            '' is not supported. Instead please use 'ID' central block'' @
            '' and 'square root of spectral correlation' outer block.''])"

section \<open>Field sets (atlas) and the for loop\<close>

text \<open>
  An atlas field of rank 2 has a name, a level count and a two-dimensional array of
  doubles, indexed (spectral coefficient, level); doubles are modelled as reals. A field
  set is an ordered collection of fields, looked up by name.
\<close>

record Field =
  field_name :: string
  field_levels :: nat
  field_data :: "real list list"

type_synonym FieldSet = "Field list"

text \<open>\<open>fieldSet[var]\<close>: atlas throws when no field has that name.\<close>

definition field :: "FieldSet \<Rightarrow> string \<Rightarrow> exception + Field" where
  "field fieldSet var =
     (case find (\<lambda>f. field_name f = var) fieldSet of
        None \<Rightarrow> Inl (FieldNotFound var)
      | Some f \<Rightarrow> Inr f)"

text \<open>
  A view writes into the field's own array: \<open>set_field_data\<close> stores the array written
  through the view of \<open>fieldSet[var]\<close> back into the field set.
\<close>

fun set_field_data :: "FieldSet \<Rightarrow> string \<Rightarrow> real list list \<Rightarrow> FieldSet" where
  "set_field_data [] var d = []"
| "set_field_data (f # fs) var d =
     (if field_name f = var then f\<lparr>field_data := d\<rparr> # fs else f # set_field_data fs var d)"

text \<open>
  A \<open>for\<close> loop over the values \<open>xs\<close> whose body may throw: the state is threaded through
  the iterations and the first exception ends the loop.
\<close>

fun forE :: "'a list \<Rightarrow> ('a \<Rightarrow> 's \<Rightarrow> exception + 's) \<Rightarrow> 's \<Rightarrow> exception + 's" where
  "forE [] body s = Inr s"
| "forE (x # xs) body s = (case body x s of Inl e \<Rightarrow> Inl e | Inr s' \<Rightarrow> forE xs body s')"

section \<open>SpectralCorrelation: multiply\<close>

text \<open>
  The members \<open>multiply\<close> reads: the active variables, the field set of rank-3 correlation
  arrays, indexed (total wavenumber, level, level), and of the spectral function space its
  truncation and the zonal wavenumbers held by this task. Wavenumbers are naturals: the
  source's \<open>idx_t\<close> values are never negative for a function space.
\<close>

record SpectralCorrelation =
  activeVars :: "string list"
  spectralVerticalCorrelations :: "(string \<times> real list list list) list"
  truncation :: nat
  zonal_wavenumbers :: "nat list"

text \<open>
  The body of the innermost loop (over \<open>img\<close>), on the state \<open>(i, spfView)\<close>: the column
  of row \<open>i\<close> is read, convolved with the matrix of total wavenumber \<open>n1\<close> and written back,
  and \<open>i\<close> is incremented. With no levels nothing is read or written. Otherwise the reads
  \<open>spfView(i, jl)\<close> and \<open>vertCovView(n1, r, c)\<close> for \<open>jl, r, c < levels\<close> must lie inside the
  arrays. The inner sum starts from 0 and adds the terms in the order of \<open>c\<close>, each term
  divided by \<open>norm\<close>, as the source does.
\<close>

definition img_body ::
  "real list list list \<Rightarrow> nat \<Rightarrow> nat \<Rightarrow> nat \<times> real list list \<Rightarrow>
     exception + nat \<times> real list list" where
  "img_body vertCovView levels n1 = (\<lambda>(i, spfView).
     if levels = 0 then Inr (Suc i, spfView)
     else if i < length spfView \<and> levels \<le> length (spfView ! i) \<and>
             n1 < length vertCovView \<and> levels \<le> length (vertCovView ! n1) \<and>
             list_all (\<lambda>r. levels \<le> length (vertCovView ! n1 ! r)) [0..<levels]
     then
       (let col = map (\<lambda>jl. spfView ! i ! jl) [0..<levels];
            norm = real ((2 * n1 + 1) * length vertCovView);
            col2 = map (\<lambda>r. foldl (\<lambda>s c. s + vertCovView ! n1 ! r ! c * col ! c / norm) 0
                              [0..<levels]) [0..<levels]
        in Inr (Suc i, spfView[i := col2 @ drop levels (spfView ! i)]))
     else Inl OutOfBounds)"

text \<open>
  One iteration of the loop over the active variables: \<open>fieldSet[var]\<close> and then
  \<open>spectralVerticalCorrelations_[var]\<close> are looked up, \<open>i\<close> starts at 0, and the loops
  over \<open>jm\<close>, \<open>n1 = m1, \<dots>, N\<close> and \<open>img = 0, 1\<close> run.
\<close>

definition multiply_var :: "SpectralCorrelation \<Rightarrow> string \<Rightarrow> FieldSet \<Rightarrow> exception + FieldSet" where
  "multiply_var self var fieldSet =
     (case field fieldSet var of
        Inl e \<Rightarrow> Inl e
      | Inr f \<Rightarrow>
          (case map_of (spectralVerticalCorrelations self) var of
             None \<Rightarrow> Inl (FieldNotFound var)
           | Some vertCovView \<Rightarrow>
               (case forE (zonal_wavenumbers self) (\<lambda>m1.
                       forE [m1..<Suc (truncation self)] (\<lambda>n1.
                         forE [0, 1::nat] (\<lambda>img.
                           img_body vertCovView (field_levels f) n1)))
                       (0, field_data f) of
                  Inl e \<Rightarrow> Inl e
                | Inr (i, spfView) \<Rightarrow> Inr (set_field_data fieldSet var spfView))))"

definition multiply :: "SpectralCorrelation \<Rightarrow> FieldSet \<Rightarrow> exception + FieldSet" where
  "multiply self fieldSet = forE (activeVars self) (multiply_var self) fieldSet"

text \<open>
  For the statements: the rows of a spectral field in the order the loops visit them, each
  with its zonal wavenumber, its total wavenumber and its component (0 real, 1
  imaginary); and the convolution of one column with the matrix of total wavenumber \<open>n\<close>,
  normalised by \<open>(2n+1)\<close> times the first extent of the correlation array.
\<close>

definition spectral_rows :: "nat list \<Rightarrow> nat \<Rightarrow> (nat \<times> nat \<times> nat) list" where
  "spectral_rows zw N = concat (map (\<lambda>m. concat (map (\<lambda>n. [(m, n, 0), (m, n, 1)]) [m..<Suc N])) zw)"

definition convolved :: "real list list list \<Rightarrow> nat \<Rightarrow> nat \<Rightarrow> real list \<Rightarrow> nat \<Rightarrow> real" where
  "convolved vertCov levels n col r =
     (\<Sum>c<levels. vertCov ! n ! r ! c * col ! c) / (real (2 * n + 1) * real (length vertCov))"

definition new_row :: "real list list list \<Rightarrow> nat \<Rightarrow> nat \<Rightarrow> real list \<Rightarrow> real list" where
  "new_row vertCov levels n row =
     map (convolved vertCov levels n row) [0..<levels] @ drop levels row"

text \<open>
  The shapes with which no read of \<open>multiply\<close> leaves an array: the field has a row for
  every (m, n, component) the loops visit, every row has the field's levels, and the
  correlation array has a matrix of at least that size for every total wavenumber visited.
\<close>

definition fits :: "SpectralCorrelation \<Rightarrow> Field \<Rightarrow> real list list list \<Rightarrow> bool" where
  "fits self f vertCov =
     (field_levels f = 0 \<or>
      (length (spectral_rows (zonal_wavenumbers self) (truncation self)) \<le> length (field_data f) \<and>
       list_all (\<lambda>row. field_levels f \<le> length row) (field_data f) \<and>
       list_all (\<lambda>row. fst (snd row) < length vertCov \<and>
                   field_levels f \<le> length (vertCov ! fst (snd row)) \<and>
                   list_all (\<lambda>r. field_levels f \<le> length (vertCov ! fst (snd row) ! r))
                     [0..<field_levels f])
         (spectral_rows (zonal_wavenumbers self) (truncation self))))"

text \<open>
  Two small blocks for evaluating \<open>multiply\<close>: truncation 1, the zonal wavenumber 0 on this
  task, two levels, and the active variable \<open>psi\<close>. The first holds full matrices, the
  second the identity at both total wavenumbers. The field set holds \<open>psi\<close> and a field
  \<open>chi\<close> that is not active.
\<close>

definition example_block :: SpectralCorrelation where
  "example_block =
     \<lparr>activeVars = [''psi''],
      spectralVerticalCorrelations = [(''psi'', [[[1, 2], [3, 4]], [[1, 1/2], [1/2, 1]]])],
      truncation = 1,
      zonal_wavenumbers = [0]\<rparr>"

definition identity_block :: SpectralCorrelation where
  "identity_block =
     \<lparr>activeVars = [''psi''],
      spectralVerticalCorrelations = [(''psi'', [[[1, 0], [0, 1]], [[1, 0], [0, 1]]])],
      truncation = 1,
      zonal_wavenumbers = [0]\<rparr>"

definition example_psi :: Field where
  "example_psi =
     \<lparr>field_name = ''psi'', field_levels = 2, field_data = [[1, 1], [2, 0], [6, 12], [0, 3]]\<rparr>"

definition example_chi :: Field where
  "example_chi = \<lparr>field_name = ''chi'', field_levels = 1, field_data = [[7], [8]]\<rparr>"

section \<open>Doubles (IEEE 754 binary64)\<close>

text \<open>
  Where a statement depends on what double arithmetic does to a value, doubles are the
  values below: not-a-number, the two infinities, negative zero, and \<open>Val r\<close> for the
  finite double of value \<open>r\<close>, with \<open>Val 0\<close> the positive zero. The operations return
  doubles when given doubles; a \<open>Val r\<close> whose \<open>r\<close> no double has is never produced.

  \<open>fl\<close> rounds a nonzero real to the nearest double, ties to the even significand: the
  exponent is that of the real, but not below -1022, the significand has 52 bits after
  the leading one, a result of magnitude \<open>2^1024\<close> or more is an infinity, and a result
  that rounds to nothing is a zero of the real's sign.
\<close>

datatype double = NaN | PInf | NInf | NegZero | Val real

definition rne :: "real \<Rightarrow> int" where
  "rne y = (let f = \<lfloor>y\<rfloor> in
              if y - of_int f < 1/2 then f
              else if 1/2 < y - of_int f then f + 1
              else if even f then f else f + 1)"

definition huge :: real where
  "huge = 2 ^ 1024"

definition fl :: "real \<Rightarrow> double" where
  "fl x = (let e = max \<lfloor>log 2 \<bar>x\<bar>\<rfloor> (-1022);
               u = 2 powr (of_int e - 52);
               r = u * of_int (rne (x / u))
           in if huge \<le> \<bar>r\<bar> then (if 0 < x then PInf else NInf)
              else if r = 0 then (if 0 < x then Val 0 else NegZero)
              else Val r)"

definition negative :: "double \<Rightarrow> bool" where
  "negative x = (case x of NaN \<Rightarrow> False | PInf \<Rightarrow> False | NInf \<Rightarrow> True | NegZero \<Rightarrow> True
                 | Val a \<Rightarrow> a < 0)"

definition is_zero :: "double \<Rightarrow> bool" where
  "is_zero x = (x = NegZero \<or> x = Val 0)"

definition is_inf :: "double \<Rightarrow> bool" where
  "is_inf x = (x = PInf \<or> x = NInf)"

text \<open>
  Addition: a sum of zeros is negative only when both are, a zero added to another value
  gives that value, and an exact sum of zero from nonzero values is the positive zero.
\<close>

definition dplus :: "double \<Rightarrow> double \<Rightarrow> double" where
  "dplus x y =
     (if x = NaN \<or> y = NaN then NaN
      else if (x = PInf \<and> y = NInf) \<or> (x = NInf \<and> y = PInf) then NaN
      else if is_inf x then x
      else if is_inf y then y
      else if is_zero x \<and> is_zero y then (if x = NegZero \<and> y = NegZero then NegZero else Val 0)
      else if is_zero x then y
      else if is_zero y then x
      else (case (x, y) of
              (Val a, Val b) \<Rightarrow> (if a + b = 0 then Val 0 else fl (a + b))
            | _ \<Rightarrow> NaN))"

definition dtimes :: "double \<Rightarrow> double \<Rightarrow> double" where
  "dtimes x y =
     (if x = NaN \<or> y = NaN then NaN
      else if (is_inf x \<and> is_zero y) \<or> (is_zero x \<and> is_inf y) then NaN
      else if is_inf x \<or> is_inf y then (if negative x \<noteq> negative y then NInf else PInf)
      else if is_zero x \<or> is_zero y then (if negative x \<noteq> negative y then NegZero else Val 0)
      else (case (x, y) of
              (Val a, Val b) \<Rightarrow> fl (a * b)
            | _ \<Rightarrow> NaN))"

text \<open>\<open>std::sqrt\<close> on doubles: not a number for a negative argument, else the rounded root.\<close>

definition dsqrt :: "double \<Rightarrow> double" where
  "dsqrt x =
     (case x of
        NaN \<Rightarrow> NaN
      | PInf \<Rightarrow> PInf
      | NInf \<Rightarrow> NaN
      | NegZero \<Rightarrow> NegZero
      | Val a \<Rightarrow> (if a < 0 then NaN else if a = 0 then Val 0 else fl (sqrt a)))"

instantiation double :: "{zero, one, plus, times}"
begin

definition zero_double :: double where
  "zero_double = Val 0"

definition one_double :: double where
  "one_double = Val 1"

definition plus_double :: "double \<Rightarrow> double \<Rightarrow> double" where
  "plus_double = dplus"

definition times_double :: "double \<Rightarrow> double \<Rightarrow> double" where
  "times_double = dtimes"

instance ..

end

section \<open>ErrorCovariance (ErrorCovariance.h)\<close>

text \<open>
  The 4D field sets that \<open>doMultiply\<close> works on are values of a type \<open>'f\<close> with a zero
  and an addition: \<open>dxo.zero()\<close> is \<open>0\<close> and \<open>dxo += fset\<close> is \<open>+\<close>. The scalar
  weights are values of a type \<open>'d\<close> with a one, for the source's 1.0: the reals where the
  arithmetic is taken exact, the doubles of the section above where it is not. The two
  multiplications of a 4D field set, by a scalar (\<open>fset *= hybridScalarWeightSqrt_[jj]\<close>)
  and by a field set of weights (\<open>fset *= hybridFieldWeightSqrt_[jj]\<close>), belong to the
  OOPS library and are parameters, \<open>scal\<close> and \<open>mulFieldSet\<close>. A field set of weights is
  the list of its fields, empty when it holds none.

  A block chain is known by what it does to a field set: the outer chain by its forward and
  adjoint applications, a component chain by its \<open>multiply\<close>.
\<close>

record 'f SaberOuterBlockChain =
  applyOuterBlocks :: "'f \<Rightarrow> 'f"
  applyOuterBlocksAD :: "'f \<Rightarrow> 'f"

record ('f, 'w, 'd) ErrorCovariance =
  outerBlockChain :: "'f SaberOuterBlockChain option"
  hybridBlockChain :: "('f \<Rightarrow> 'f) list"
  hybridScalarWeightSqrt :: "'d list"
  hybridFieldWeightSqrt :: "'w list list"

text \<open>
  The block under the comment \<open>Apply weight\<close>, which \<open>doMultiply\<close> runs before and after
  the component's covariance: the scalar weight is applied unless it equals 1.0, the field
  weight unless it is empty.
\<close>

definition applyWeight ::
  "('d \<Rightarrow> 'f \<Rightarrow> 'f) \<Rightarrow> ('w list \<Rightarrow> 'f \<Rightarrow> 'f) \<Rightarrow> 'd::one \<Rightarrow> 'w list \<Rightarrow> 'f \<Rightarrow> 'f" where
  "applyWeight scal mulFieldSet scalarWeightSqrt fieldWeightSqrt fset =
     (let fset1 = (if scalarWeightSqrt \<noteq> 1 then scal scalarWeightSqrt fset else fset)
      in if fieldWeightSqrt \<noteq> [] then mulFieldSet fieldWeightSqrt fset1 else fset1)"

text \<open>
  The body of the loop over the B components, up to the addition: the field set \<open>fset\<close>
  that iteration \<open>jj\<close> adds to \<open>dxo\<close>.
\<close>

definition hybridComponent ::
  "('d \<Rightarrow> 'f \<Rightarrow> 'f) \<Rightarrow> ('w list \<Rightarrow> 'f \<Rightarrow> 'f) \<Rightarrow> ('f, 'w, 'd::one) ErrorCovariance \<Rightarrow>
     nat \<Rightarrow> 'f \<Rightarrow> 'f" where
  "hybridComponent scal mulFieldSet self jj dxi =
     (let fset = dxi;
          fset = applyWeight scal mulFieldSet (hybridScalarWeightSqrt self ! jj)
                   (hybridFieldWeightSqrt self ! jj) fset;
          fset = (hybridBlockChain self ! jj) fset;
          fset = applyWeight scal mulFieldSet (hybridScalarWeightSqrt self ! jj)
                   (hybridFieldWeightSqrt self ! jj) fset
      in fset)"

text \<open>
  \<open>doMultiply\<close> on the field-set view of the increments. The three vectors are indexed
  by the same \<open>jj\<close>; reading a weight vector past its end is undefined in the source and is
  \<open>None\<close> here.
\<close>

definition doMultiply ::
  "('d \<Rightarrow> 'f \<Rightarrow> 'f) \<Rightarrow> ('w list \<Rightarrow> 'f \<Rightarrow> 'f) \<Rightarrow> ('f, 'w, 'd::one) ErrorCovariance \<Rightarrow>
     'f::{zero,plus} \<Rightarrow> 'f option" where
  "doMultiply scal mulFieldSet self dxi_inc =
     (if length (hybridBlockChain self) \<le> length (hybridScalarWeightSqrt self) \<and>
         length (hybridBlockChain self) \<le> length (hybridFieldWeightSqrt self)
      then
        (let dxo = dxi_inc;
             dxo = (case outerBlockChain self of
                      Some chain \<Rightarrow> applyOuterBlocksAD chain dxo
                    | None \<Rightarrow> dxo);
             dxi = dxo;
             dxo = 0;
             dxo = foldl (\<lambda>dxo jj. dxo + hybridComponent scal mulFieldSet self jj dxi) dxo
                     [0..<length (hybridBlockChain self)];
             dxo = (case outerBlockChain self of
                      Some chain \<Rightarrow> applyOuterBlocks chain dxo
                    | None \<Rightarrow> dxo)
         in Some dxo)
      else None)"

text \<open>
  What the constructor reads of the configuration. A component of a hybrid covariance has
  a weight, with an optional scalar \<open>value\<close> and an optional \<open>file\<close>, and a covariance
  configuration whose central block has a name. The covariance itself names its central
  block, may give outer blocks, lists the components, and \<open>toConfiguration\<close> is the whole
  configuration, from which the chain of a covariance that is not hybrid is built.
\<close>

record ('c, 'd) HybridComponentConf =
  weight_value :: "'d option"
  weight_file :: "'c option"
  cmpBlockName :: string
  covariance :: 'c

record ('c, 'd) ErrorCovarianceParameters =
  saberBlockName :: string
  saberOuterBlocksParams :: "'c option"
  components :: "('c, 'd) HybridComponentConf list"
  toConfiguration :: 'c

text \<open>
  The constructors and functions the constructor calls, which live outside this file: the
  three block chains, \<open>readHybridWeight\<close>, \<open>util::sqrtFieldSet\<close>, and \<open>std::sqrt\<close> on
  the scalar weights.
\<close>

record ('f, 'w, 'c, 'd) Builders =
  newSaberOuterBlockChain :: "'c \<Rightarrow> 'f SaberOuterBlockChain"
  newSaberEnsembleBlockChain :: "'c \<Rightarrow> 'f \<Rightarrow> 'f"
  newSaberParametricBlockChain :: "'c \<Rightarrow> 'f \<Rightarrow> 'f"
  readHybridWeight :: "'c \<Rightarrow> 'w list"
  sqrtFieldSet :: "'w list \<Rightarrow> 'w list"
  std_sqrt :: "'d \<Rightarrow> 'd"

text \<open>\<open>weightConf.getDouble("value", 1.0)\<close>.\<close>

definition getDouble :: "'d option \<Rightarrow> 'd \<Rightarrow> 'd" where
  "getDouble v dflt = (case v of Some x \<Rightarrow> x | None \<Rightarrow> dflt)"

text \<open>One iteration of the loop over the components: three \<open>push_back\<close>s.\<close>

definition addComponent ::
  "('f, 'w, 'c, 'd::one) Builders \<Rightarrow> ('f, 'w, 'd) ErrorCovariance \<Rightarrow> ('c, 'd) HybridComponentConf \<Rightarrow>
     ('f, 'w, 'd) ErrorCovariance" where
  "addComponent B self cmp =
     self\<lparr>hybridScalarWeightSqrt :=
            hybridScalarWeightSqrt self @ [std_sqrt B (getDouble (weight_value cmp) 1)],
          hybridFieldWeightSqrt :=
            hybridFieldWeightSqrt self @
              [case weight_file cmp of
                 Some file \<Rightarrow> sqrtFieldSet B (readHybridWeight B file)
               | None \<Rightarrow> []],
          hybridBlockChain :=
            hybridBlockChain self @
              [if cmpBlockName cmp = ''Ensemble''
               then newSaberEnsembleBlockChain B (covariance cmp)
               else newSaberParametricBlockChain B (covariance cmp)]\<rparr>"

definition newErrorCovariance ::
  "('f, 'w, 'c, 'd::one) Builders \<Rightarrow> ('c, 'd) ErrorCovarianceParameters \<Rightarrow>
     ('f, 'w, 'd) ErrorCovariance" where
  "newErrorCovariance B params =
     (if saberBlockName params = ''Hybrid''
      then foldl (addComponent B)
             \<lparr>outerBlockChain = map_option (newSaberOuterBlockChain B) (saberOuterBlocksParams params),
              hybridBlockChain = [],
              hybridScalarWeightSqrt = [],
              hybridFieldWeightSqrt = []\<rparr>
             (components params)
      else \<lparr>outerBlockChain = None,
            hybridBlockChain =
              [if saberBlockName params = ''Ensemble''
               then newSaberEnsembleBlockChain B (toConfiguration params)
               else newSaberParametricBlockChain B (toConfiguration params)],
            hybridScalarWeightSqrt = [1],
            hybridFieldWeightSqrt = [[]]\<rparr>)"

text \<open>
  For the statements: a field set with both weights applied, the scalar one always (in a
  real vector space multiplying by 1 changes nothing); a component's configuration with
  its scalar weight multiplied by \<open>k\<close>, and the configuration of a covariance with that
  done to component \<open>i\<close>; and the outer chain's two applications, which are skipped when
  there is no outer chain.
\<close>

definition weighted :: "('w list \<Rightarrow> 'f \<Rightarrow> 'f) \<Rightarrow> real \<Rightarrow> 'w list \<Rightarrow> 'f::real_vector \<Rightarrow> 'f" where
  "weighted mulFieldSet s w x = (if w = [] then s *\<^sub>R x else mulFieldSet w (s *\<^sub>R x))"

definition scaleWeight ::
  "'d::{one,times} \<Rightarrow> ('c, 'd) HybridComponentConf \<Rightarrow> ('c, 'd) HybridComponentConf" where
  "scaleWeight k cmp = cmp\<lparr>weight_value := Some (k * getDouble (weight_value cmp) 1)\<rparr>"

definition scaleComponent ::
  "nat \<Rightarrow> 'd::{one,times} \<Rightarrow> ('c, 'd) ErrorCovarianceParameters \<Rightarrow> ('c, 'd) ErrorCovarianceParameters" where
  "scaleComponent i k params =
     params\<lparr>components := (components params)[i := scaleWeight k (components params ! i)]\<rparr>"

definition outerAD :: "('f, 'w, 'd) ErrorCovariance \<Rightarrow> 'f \<Rightarrow> 'f" where
  "outerAD self x = (case outerBlockChain self of Some chain \<Rightarrow> applyOuterBlocksAD chain x | None \<Rightarrow> x)"

definition outerForward :: "('f, 'w, 'd) ErrorCovariance \<Rightarrow> 'f \<Rightarrow> 'f" where
  "outerForward self x = (case outerBlockChain self of Some chain \<Rightarrow> applyOuterBlocks chain x | None \<Rightarrow> x)"

text \<open>
  A small covariance over one-point field sets (the reals) for evaluating \<open>doMultiply\<close>:
  an outer chain that doubles in both directions, two components, and field weights that
  multiply by the product of their entries. The builders make a chain that multiplies by
  its configuration.
\<close>

definition example_mulFieldSet :: "real list \<Rightarrow> real \<Rightarrow> real" where
  "example_mulFieldSet w x = prod_list w * x"

definition example_covariance :: "(real, real, real) ErrorCovariance" where
  "example_covariance =
     \<lparr>outerBlockChain = Some \<lparr>applyOuterBlocks = (\<lambda>x. 2 * x), applyOuterBlocksAD = (\<lambda>x. 2 * x)\<rparr>,
      hybridBlockChain = [\<lambda>x. 3 * x, \<lambda>x. x + 1],
      hybridScalarWeightSqrt = [2, 1],
      hybridFieldWeightSqrt = [[], [5]]\<rparr>"

definition example_builders :: "(real, real, real, real) Builders" where
  "example_builders =
     \<lparr>newSaberOuterBlockChain = (\<lambda>c. \<lparr>applyOuterBlocks = (\<lambda>x. c * x), applyOuterBlocksAD = (\<lambda>x. c * x)\<rparr>),
      newSaberEnsembleBlockChain = (\<lambda>c x. c * x),
      newSaberParametricBlockChain = (\<lambda>c x. c * x),
      readHybridWeight = (\<lambda>c. [c]),
      sqrtFieldSet = map sqrt,
      std_sqrt = sqrt\<rparr>"

definition example_hybrid :: "(real, real) ErrorCovarianceParameters" where
  "example_hybrid =
     \<lparr>saberBlockName = ''Hybrid'',
      saberOuterBlocksParams = Some 2,
      components = [\<lparr>weight_value = Some 4, weight_file = None,
                     cmpBlockName = ''BUMP_NICAS'', covariance = 3\<rparr>,
                    \<lparr>weight_value = None, weight_file = None,
                     cmpBlockName = ''Ensemble'', covariance = 5\<rparr>],
      toConfiguration = 0\<rparr>"


text \<open>
  The same over doubles, with field sets of one double: the scalar multiplication is the
  double product, the chains are the ID block, whose \<open>multiply\<close> leaves the field set as
  it is, and \<open>std::sqrt\<close> is the double square root. One covariance is not hybrid, the
  other is a hybrid of one component with weight 1.0.
\<close>

definition double_builders :: "(double, double, unit, double) Builders" where
  "double_builders =
     \<lparr>newSaberOuterBlockChain = (\<lambda>c. \<lparr>applyOuterBlocks = (\<lambda>x. x), applyOuterBlocksAD = (\<lambda>x. x)\<rparr>),
      newSaberEnsembleBlockChain = (\<lambda>c x. x),
      newSaberParametricBlockChain = (\<lambda>c x. x),
      readHybridWeight = (\<lambda>c. []),
      sqrtFieldSet = map dsqrt,
      std_sqrt = dsqrt\<rparr>"

definition double_mulFieldSet :: "double list \<Rightarrow> double \<Rightarrow> double" where
  "double_mulFieldSet w x = foldl (\<lambda>y v. v * y) x w"


definition double_hybrid :: "(unit, double) ErrorCovarianceParameters" where
  "double_hybrid =
     \<lparr>saberBlockName = ''Hybrid'',
      saberOuterBlocksParams = None,
      components = [\<lparr>weight_value = Some 1, weight_file = None,
                     cmpBlockName = ''ID'', covariance = ()\<rparr>],
      toConfiguration = ()\<rparr>"

section \<open>SaberCentralBlockBase::adjointTest (SaberCentralBlockBase.cc)\<close>

text \<open>
  The parameters: \<open>createRandomFieldSet\<close> draws a field set from a generator state and
  returns the next state, \<open>this_multiply\<close> is the block's virtual \<open>multiply\<close>, and
  \<open>dotProductFieldSets\<close> is the dot product over all tasks of the communicator.
  \<open>util::copyFieldSet\<close> makes a deep copy, so the saved field sets keep the values drawn.
  The result holds the exception if one is thrown, the lines written to \<open>Log::test()\<close>,
  and the generator state.

  The comparison is made on doubles: when \<open>0.5*(dp1+dp2)\<close> is zero the quotient is
  infinite or not a number and the comparison is false, which the model writes out,
  since division by zero is 0 on the reals.
\<close>

definition adjointTest ::
  "('g \<Rightarrow> 'f \<times> 'g) \<Rightarrow> ('f \<Rightarrow> 'f) \<Rightarrow> ('f \<Rightarrow> 'f \<Rightarrow> real) \<Rightarrow> string \<Rightarrow> real \<Rightarrow> 'g \<Rightarrow>
     (exception + unit) \<times> log \<times> 'g" where
  "adjointTest createRandomFieldSet this_multiply dotProductFieldSets blockName adjointTolerance g =
     (let (fset1, g1) = createRandomFieldSet g;
          (fset2, g2) = createRandomFieldSet g1;
          fset1Save = fset1;
          fset2Save = fset2;
          fset1 = this_multiply fset1;
          fset2 = this_multiply fset2;
          dp1 = dotProductFieldSets fset1 fset2Save;
          dp2 = dotProductFieldSets fset2 fset1Save
      in if 0.5 * (dp1 + dp2) \<noteq> 0 \<and> \<bar>dp1 - dp2\<bar> / \<bar>0.5 * (dp1 + dp2)\<bar> < adjointTolerance
         then (Inr (), [''Adjoint test for block '' @ blockName @ '' passed''], g2)
         else (Inl (Exception (''Adjoint test failure for block '' @ blockName)),
               [''Adjoint test for block '' @ blockName @ '' failed''], g2))"

text \<open>
  For evaluating the test: field sets of two values, a generator that hands out the field
  sets of a list, the dot product, and two blocks, one symmetric and one not.
\<close>

definition example_draw :: "(real \<times> real) list \<Rightarrow> (real \<times> real) \<times> (real \<times> real) list" where
  "example_draw g = (case g of [] \<Rightarrow> ((0, 0), []) | x # xs \<Rightarrow> (x, xs))"

definition example_dot :: "real \<times> real \<Rightarrow> real \<times> real \<Rightarrow> real" where
  "example_dot x y = fst x * fst y + snd x * snd y"

definition example_symmetric :: "real \<times> real \<Rightarrow> real \<times> real" where
  "example_symmetric x = (2 * fst x + snd x, fst x + 3 * snd x)"

definition example_shift :: "real \<times> real \<Rightarrow> real \<times> real" where
  "example_shift x = (snd x, 0)"

section \<open>gsi_covariance_mod: collecting and reporting the missing fields\<close>

text \<open>
  Fortran character variables have a fixed length and are padded with blanks: \<open>assign n\<close>
  is the assignment to a variable of length \<open>n\<close>, \<open>trim\<close> removes the trailing blanks,
  and two strings are equal when they are equal up to trailing blanks. \<open>tbdvars\<close> and
  \<open>needvrs\<close> have length 30.
\<close>

definition trim :: "string \<Rightarrow> string" where
  "trim s = rev (dropWhile (\<lambda>c. c = CHR '' '') (rev s))"

definition assign :: "nat \<Rightarrow> string \<Rightarrow> string" where
  "assign n s = take n (s @ replicate n (CHR '' ''))"

definition has :: "FieldSet \<Rightarrow> string \<Rightarrow> bool" where
  "has fieldset n = (n \<in> set (map field_name fieldset))"

text \<open>
  \<open>get_rank2_\<close> returns in \<open>ier\<close> whether the atlas field for the GSI name \<open>vname\<close> is in
  the field set: 0 when it is, -1 when it is not or when the name is not known. The source
  tests the names one after the other and returns at the first missing field; no name
  passes two tests, so the chain below gives the same \<open>ier\<close>. The pointer to the data,
  which is the other result, is not modelled.
\<close>

definition ier_of :: "bool \<Rightarrow> int" where
  "ier_of found = (if found then 0 else -1)"

definition get_rank2 :: "FieldSet \<Rightarrow> string \<Rightarrow> int" where
  "get_rank2 fieldset vname =
     (if trim vname = ''ps'' then ier_of (has fieldset ''air_pressure_at_surface'')
      else if trim vname = ''ts'' \<or> trim vname = ''sst''
        then ier_of (has fieldset ''skin_temperature_at_surface'')
      else if trim vname = ''u'' \<or> trim vname = ''ua'' then ier_of (has fieldset ''eastward_wind'')
      else if trim vname = ''v'' \<or> trim vname = ''va'' then ier_of (has fieldset ''northward_wind'')
      else if trim vname = ''sf'' then ier_of (has fieldset ''stream_function'')
      else if trim vname = ''vp'' then ier_of (has fieldset ''velocity_potential'')
      else if trim vname = ''t'' \<or> trim vname = ''tsen'' then ier_of (has fieldset ''air_temperature'')
      else if trim vname = ''tv'' then ier_of (has fieldset ''virtual_temperature'')
      else if trim vname = ''q'' \<or> trim vname = ''sphum''
        then ier_of (has fieldset ''specific_humidity'')
      else if trim vname = ''qi'' then ier_of (has fieldset ''cloud_liquid_ice'')
      else if trim vname = ''ql'' then ier_of (has fieldset ''cloud_liquid_water'')
      else if trim vname = ''qr'' then ier_of (has fieldset ''rain_water'')
      else if trim vname = ''qs'' then ier_of (has fieldset ''snow_water'')
      else if trim vname = ''qg'' then ier_of (has fieldset ''graupel'')
      else if trim vname = ''qh'' then ier_of (has fieldset ''hail'')
      else if trim vname = ''oz'' \<or> trim vname = ''o3ppmv''
        then ier_of (has fieldset ''mole_fraction_of_ozone_in_air'')
      else if trim vname = ''o3mr'' then ier_of (has fieldset ''ozone_mass_mixing_ratio'')
      else if trim vname = ''phis''
        then ier_of (has fieldset ''geopotential_height_times_gravity_at_surface'' \<or>
                     has fieldset ''geopotential_height_at_surface'')
      else if trim vname = ''frocean'' then ier_of (has fieldset ''fraction_of_ocean'')
      else if trim vname = ''frlake'' then ier_of (has fieldset ''fraction_of_lake'')
      else if trim vname = ''frseaice'' then ier_of (has fieldset ''fraction_of_ice'')
      else -1)"

text \<open>
  \<open>where(need==v) need='filled-'//need\<close>, and the effect of \<open>svfix_\<close> and \<open>cvfix_\<close> on
  \<open>need\<close>. Both are called with \<open>which\<close> equal to \<open>adm\<close> or \<open>tlm\<close>; the marking of \<open>tv\<close>
  sits inside the loop over the times. To rebuild \<open>tv\<close> they fetch the atlas field of \<open>t\<close>
  with \<open>get_rank2_\<close> at every time and read through the pointer without testing \<open>ier\<close>, and
  \<open>cvfix_\<close> does the same with \<open>ts\<close>: when a lookup fails the read goes through a pointer
  that was never set, which is undefined, and the result is \<open>None\<close>. The fields they
  compute are not modelled.
\<close>

definition mark_filled :: "string \<Rightarrow> string list \<Rightarrow> string list" where
  "mark_filled v need = map (\<lambda>s. if trim s = v then assign 30 (''filled-'' @ s) else s) need"

definition all_times_have :: "FieldSet list \<Rightarrow> string \<Rightarrow> bool" where
  "all_times_have jedicv vname = list_all (\<lambda>fieldset. get_rank2 fieldset vname = 0) jedicv"

definition fix_tv :: "FieldSet list \<Rightarrow> string \<Rightarrow> string list \<Rightarrow> string list option" where
  "fix_tv jedicv which need =
     (if \<exists>s\<in>set need. trim s = ''tv''
      then (if all_times_have jedicv ''t''
            then Some (if which = ''tlm'' \<or> which = ''adm''
                       then (mark_filled ''tv'' ^^ length jedicv) need else need)
            else None)
      else Some need)"

definition svfix :: "FieldSet list \<Rightarrow> string \<Rightarrow> string list \<Rightarrow> string list option" where
  "svfix jedicv which need =
     (if length need < 1 then Some need
      else
        (let need = (if \<exists>s\<in>set need. trim s = ''prse'' then mark_filled ''prse'' need else need)
         in fix_tv jedicv which need))"

definition cvfix :: "FieldSet list \<Rightarrow> string \<Rightarrow> string list \<Rightarrow> string list option" where
  "cvfix jedicv which need =
     (if length need < 1 then Some need
      else
        (case fix_tv jedicv which need of
           None \<Rightarrow> None
         | Some need \<Rightarrow>
             (if \<exists>s\<in>set need. trim s = ''ts''
              then (if all_times_have jedicv ''ts''
                    then Some ((mark_filled ''sst'' ^^ length jedicv) need)
                    else None)
              else Some need)))"

text \<open>
  The test that both subroutines make on the collected list: when an entry does not
  start with \<open>filled\<close>, every entry is printed, one \<open>print\<close> statement each, and then
  \<open>abor1_ftn\<close> is called once. The result is the list of the lines printed, each the list
  of the items of its \<open>print\<close> statement, and the message of the abort if there is one.
\<close>

definition report_missing ::
  "string \<Rightarrow> string \<Rightarrow> string \<Rightarrow> string list \<Rightarrow> string list list \<times> string option" where
  "report_missing myname tag msg vars =
     (if \<exists>s\<in>set vars. take 6 s \<noteq> ''filled''
      then (map (\<lambda>s. [myname, tag, trim s]) vars, Some (myname @ msg))
      else ([], None))"

text \<open>
  \<open>multiply\<close> up to its first check. The object holds \<open>noGSI\<close> (of its grid) and \<open>cv\<close>;
  the GSI modules give the names of the control and state variables; \<open>bundle_has ii v\<close>
  says whether \<open>gsi_bundlegetpointer\<close> finds \<open>v\<close> in the bundle of time \<open>ii\<close>; \<open>fieldsets\<close>
  has one atlas field set per time. One step of the conversion loops sets the entry of a
  variable: it is left alone when the bundle lacks the variable, marked filled when the
  atlas field is there, and set to the bare name when it is not.
\<close>

record gsi_covariance =
  noGSI :: bool
  cv :: bool

record gsi_names =
  cvars2d :: "string list"
  cvars3d :: "string list"
  svars2d :: "string list"
  svars3d :: "string list"

definition translate_var ::
  "(string \<Rightarrow> bool) \<Rightarrow> FieldSet \<Rightarrow> string list \<Rightarrow> nat \<times> string \<Rightarrow> string list" where
  "translate_var in_bundle fieldset tbdvars = (\<lambda>(itbd, gvar).
     if \<not> in_bundle gvar then tbdvars
     else if get_rank2 fieldset (trim gvar) = 0
       then tbdvars[itbd := assign 30 (''filled-'' @ trim gvar)]
     else tbdvars[itbd := assign 30 (trim gvar)])"

definition multiply_tbdvars ::
  "gsi_covariance \<Rightarrow> gsi_names \<Rightarrow> (nat \<Rightarrow> string \<Rightarrow> bool) \<Rightarrow> FieldSet list \<Rightarrow> string list" where
  "multiply_tbdvars self names bundle_has fieldsets =
     (let ntimes = length fieldsets;
          gvars2d = (if cv self then cvars2d names else svars2d names);
          gvars3d = (if cv self then cvars3d names else svars3d names);
          tbdvars = map (\<lambda>g. assign 30 (''unfilled-'' @ trim g)) (gvars2d @ gvars3d)
      in foldl (\<lambda>tbdvars ii.
                  foldl (translate_var (bundle_has ii) (fieldsets ! ii)) tbdvars
                    (enumerate 0 gvars2d @ enumerate (length gvars2d) gvars3d))
           tbdvars [0..<ntimes])"

definition multiply_needvrs ::
  "gsi_covariance \<Rightarrow> gsi_names \<Rightarrow> (nat \<Rightarrow> string \<Rightarrow> bool) \<Rightarrow> FieldSet list \<Rightarrow>
     string list option" where
  "multiply_needvrs self names bundle_has fieldsets =
     (let needvrs = multiply_tbdvars self names bundle_has fieldsets
      in if cv self then cvfix fieldsets ''adm'' needvrs else svfix fieldsets ''adm'' needvrs)"

text \<open>
  The result of \<open>multiply\<close> up to its first check: \<open>None\<close> when the fixing routine ran
  into the undefined read, else the lines printed and the message of the abort, if any.
\<close>

definition multiply_adm ::
  "gsi_covariance \<Rightarrow> gsi_names \<Rightarrow> (nat \<Rightarrow> string \<Rightarrow> bool) \<Rightarrow> FieldSet list \<Rightarrow>
     (string list list \<times> string option) option" where
  "multiply_adm self names bundle_has fieldsets =
     (if noGSI self then Some ([], None)
      else
        (case multiply_needvrs self names bundle_has fieldsets of
           None \<Rightarrow> None
         | Some needvrs \<Rightarrow>
             Some (report_missing ''gsi_covariance_mod*multiply'' ''*adm:: ''
                     '': missing fields in cv(adm) '' needvrs)))"

text \<open>
  \<open>create\<close> from the allocation of \<open>tbdvars\<close> to its check, for a grid with GSI and a
  background that is not mocked. \<open>gsivars\<close> and \<open>usrvars\<close> are the GSI and user names of
  the met-guess variables, rank 2 then rank 3, and \<open>gsiguess_bkgcov_init\<close>, which belongs
  to GSI, may change the list.
\<close>

definition create_var :: "FieldSet \<Rightarrow> string list \<Rightarrow> nat \<times> string \<times> string \<Rightarrow> string list" where
  "create_var firstguess tbdvars = (\<lambda>(itbd, gsivar, usrvar).
     if get_rank2 firstguess (trim usrvar) = 0
       then tbdvars[itbd := assign 30 (''filled-'' @ trim gsivar)]
     else tbdvars[itbd := assign 30 (trim gsivar)])"

definition create_tbdvars ::
  "(string list \<Rightarrow> string list) \<Rightarrow> string list \<Rightarrow> string list \<Rightarrow> string list \<Rightarrow> FieldSet list \<Rightarrow>
     string list" where
  "create_tbdvars gsiguess_bkgcov_init tbdvars0 gsivars usrvars firstguess =
     (let tbdvars = foldl (\<lambda>tbdvars ii.
                       foldl (create_var (firstguess ! ii)) tbdvars
                         (enumerate 0 (zip gsivars usrvars)))
                     tbdvars0 [0..<length firstguess]
      in gsiguess_bkgcov_init tbdvars)"

definition create_check ::
  "(string list \<Rightarrow> string list) \<Rightarrow> string list \<Rightarrow> string list \<Rightarrow> string list \<Rightarrow> FieldSet list \<Rightarrow>
     string list list \<times> string option" where
  "create_check gsiguess_bkgcov_init tbdvars0 gsivars usrvars firstguess =
     (let tbdvars = create_tbdvars gsiguess_bkgcov_init tbdvars0 gsivars usrvars firstguess
      in if length tbdvars > 0
         then report_missing ''gsi_covariance_mod*create'' '' '' '': missing fields in fg '' tbdvars
         else ([], None))"

text \<open>A state with winds only, for evaluating the check.\<close>

definition example_names :: gsi_names where
  "example_names = \<lparr>cvars2d = [], cvars3d = [], svars2d = [''ps''], svars3d = [''u'', ''v'', ''q'']\<rparr>"

definition example_state :: gsi_covariance where
  "example_state = \<lparr>noGSI = False, cv = False\<rparr>"

definition example_winds :: FieldSet where
  "example_winds =
     [\<lparr>field_name = ''eastward_wind'', field_levels = 1, field_data = [[1]]\<rparr>,
      \<lparr>field_name = ''northward_wind'', field_levels = 1, field_data = [[2]]\<rparr>]"

text \<open>
  A state vector that needs \<open>ps\<close>, \<open>tv\<close> and \<open>q\<close>, and a field set with the specific
  humidity only.
\<close>

definition tv_names :: gsi_names where
  "tv_names = \<lparr>cvars2d = [], cvars3d = [], svars2d = [''ps''], svars3d = [''tv'', ''q'']\<rparr>"

definition example_humidity :: FieldSet where
  "example_humidity =
     [\<lparr>field_name = ''specific_humidity'', field_levels = 1, field_data = [[1]]\<rparr>]"

section \<open>Properties of the factory and of randomize\<close>

text \<open>
  C7. For every field set, SpectralCorrelation::randomize fails with a
  functionality-not-supported error; the error log gains the guidance to use the 'ID'
  central block with the 'square root of spectral correlation' outer block, and the field
  set is handed back as it came in.
\<close>

theorem randomize_not_supported:
  "randomize fieldSet lg =
     (Inl (FunctionalityNotSupported ''use ID and square root of spectral correlation instead.''),
      fieldSet,
      lg @ [''randomization with spectral correlation saber block is not supported. Instead please use 'ID' central block and 'square root of spectral correlation' outer block.''])"
  by (simp add: randomize_def)

text \<open>
  C8. Registering a name that the registry already holds throws an eckit Exception and
  leaves the first registration in place; create on a name the registry does not hold
  throws a UserError and constructs no block.
\<close>

theorem factory_duplicate_and_missing:
  "(makers st name = Some first \<longrightarrow>
      fst (SaberCentralBlockFactory name this st) =
        Inl (Exception ''Element already registered in saber::SaberCentralBlockFactory.'') \<and>
      makers (snd (SaberCentralBlockFactory name this st)) = makers st \<and>
      makers (snd (SaberCentralBlockFactory name this st)) name = Some first) \<and>
   (makers st blockId = None \<longrightarrow>
      fst (create mk args blockId st) =
        Inl (UserError ''Element does not exist in saber::SaberCentralBlockFactory.'') \<and>
      constructed (snd (create mk args blockId st)) = constructed st \<and>
      makers (snd (create mk args blockId st)) = makers st)"
  by (simp add: SaberCentralBlockFactory_def create_def)

theorem factory_duplicate_and_missing_witness:
  "makers \<lparr>makers = [''ID'' \<mapsto> (1::nat)], errorLog = [], constructed = ([]::nat list)\<rparr> ''ID''
     = Some 1 \<and>
   fst (SaberCentralBlockFactory ''ID'' (2::nat)
          \<lparr>makers = [''ID'' \<mapsto> (1::nat)], errorLog = [], constructed = ([]::nat list)\<rparr>) =
     Inl (Exception ''Element already registered in saber::SaberCentralBlockFactory.'') \<and>
   makers (snd (SaberCentralBlockFactory ''ID'' (2::nat)
          \<lparr>makers = [''ID'' \<mapsto> (1::nat)], errorLog = [], constructed = ([]::nat list)\<rparr>)) ''ID''
     = Some 1 \<and>
   makers \<lparr>makers = [''ID'' \<mapsto> (1::nat)], errorLog = [], constructed = ([]::nat list)\<rparr>
      ''spectral correlation'' = None \<and>
   fst (create (\<lambda>m a. m + a) (5::nat) ''spectral correlation''
          \<lparr>makers = [''ID'' \<mapsto> (1::nat)], errorLog = [], constructed = ([]::nat list)\<rparr>) =
     Inl (UserError ''Element does not exist in saber::SaberCentralBlockFactory.'') \<and>
   constructed (snd (create (\<lambda>m a. m + a) (5::nat) ''spectral correlation''
          \<lparr>makers = [''ID'' \<mapsto> (1::nat)], errorLog = [], constructed = ([]::nat list)\<rparr>)) = []"
  using factory_duplicate_and_missing
    [of "\<lparr>makers = [''ID'' \<mapsto> (1::nat)], errorLog = [], constructed = ([]::nat list)\<rparr>"
        "''ID''" 1 2 "''spectral correlation''" "\<lambda>m a. m + a" 5]
  by simp

section \<open>Properties of SpectralCorrelation::multiply\<close>

subsection \<open>The frame of multiply\<close>

lemma set_field_data_length: "length (set_field_data fs v d) = length fs"
  by (induction fs) auto

lemma set_field_data_nth:
  "k < length fs \<Longrightarrow>
     field_name (set_field_data fs v d ! k) = field_name (fs ! k) \<and>
     field_levels (set_field_data fs v d ! k) = field_levels (fs ! k) \<and>
     (field_name (fs ! k) \<noteq> v \<longrightarrow> set_field_data fs v d ! k = fs ! k)"
proof (induction fs arbitrary: k)
  case Nil
  then show ?case by simp
next
  case (Cons f fs)
  show ?case
  proof (cases k)
    case 0
    then show ?thesis by simp
  next
    case (Suc j)
    with Cons.prems have "j < length fs" by simp
    from Cons.IH[OF this] Suc show ?thesis by simp
  qed
qed

lemma multiply_var_shape:
  "multiply_var self var fs = Inr fs' \<Longrightarrow> \<exists>d. fs' = set_field_data fs var d"
  by (auto simp: multiply_var_def split: sum.splits option.splits prod.splits)

lemma multiply_vars_frame:
  "forE vars (multiply_var self) fs = Inr fs' \<Longrightarrow>
     length fs' = length fs \<and>
     (\<forall>k<length fs.
        field_name (fs' ! k) = field_name (fs ! k) \<and>
        field_levels (fs' ! k) = field_levels (fs ! k) \<and>
        (field_name (fs ! k) \<notin> set vars \<longrightarrow> fs' ! k = fs ! k))"
proof (induction vars arbitrary: fs)
  case Nil
  then show ?case by simp
next
  case (Cons v vars)
  from Cons.prems obtain fs1 where v: "multiply_var self v fs = Inr fs1"
    and rest: "forE vars (multiply_var self) fs1 = Inr fs'"
    by (auto split: sum.splits)
  from multiply_var_shape[OF v] obtain d where fs1: "fs1 = set_field_data fs v d" by blast
  have len: "length fs1 = length fs" by (simp add: fs1 set_field_data_length)
  note ih = Cons.IH[OF rest]
  show ?case
  proof (intro conjI allI impI)
    show "length fs' = length fs" using ih len by simp
  next
    fix k assume k: "k < length fs"
    then have k1: "k < length fs1" using len by simp
    show "field_name (fs' ! k) = field_name (fs ! k)"
      using ih k1 set_field_data_nth[OF k, of v d] fs1 by simp
    show "field_levels (fs' ! k) = field_levels (fs ! k)"
      using ih k1 set_field_data_nth[OF k, of v d] fs1 by simp
  next
    fix k assume k: "k < length fs" and notin: "field_name (fs ! k) \<notin> set (v # vars)"
    then have k1: "k < length fs1" using len by simp
    have a: "fs1 ! k = fs ! k" using set_field_data_nth[OF k, of v d] notin fs1 by simp
    have "field_name (fs1 ! k) \<notin> set vars" using a notin by simp
    then have "fs' ! k = fs1 ! k" using ih k1 by simp
    then show "fs' ! k = fs ! k" using a by simp
  qed
qed

text \<open>
  C10. When multiply returns, the field set holds the same fields in the same order with
  the same names and level counts, and every field whose name is not among the active
  variables is unchanged.
\<close>

theorem multiply_frame:
  "multiply self fieldSet = Inr fieldSet' \<Longrightarrow>
     length fieldSet' = length fieldSet \<and>
     (\<forall>k<length fieldSet.
        field_name (fieldSet' ! k) = field_name (fieldSet ! k) \<and>
        field_levels (fieldSet' ! k) = field_levels (fieldSet ! k) \<and>
        (field_name (fieldSet ! k) \<notin> set (activeVars self) \<longrightarrow> fieldSet' ! k = fieldSet ! k))"
  unfolding multiply_def by (rule multiply_vars_frame)

theorem multiply_frame_witness:
  "multiply example_block [example_psi, example_chi] =
     Inr [\<lparr>field_name = ''psi'', field_levels = 2,
           field_data = [[3/2, 7/2], [1, 3], [2, 5/2], [1/4, 1/2]]\<rparr>, example_chi] \<and>
   field_name ([example_psi, example_chi] ! 1) = ''chi'' \<and>
   ''chi'' \<notin> set (activeVars example_block) \<and>
   [\<lparr>field_name = ''psi'', field_levels = 2,
      field_data = [[3/2, 7/2], [1, 3], [2, 5/2], [1/4, 1/2]]\<rparr>, example_chi] ! 1 =
     [example_psi, example_chi] ! 1"
proof -
  have run: "multiply example_block [example_psi, example_chi] =
     Inr [\<lparr>field_name = ''psi'', field_levels = 2,
           field_data = [[3/2, 7/2], [1, 3], [2, 5/2], [1/4, 1/2]]\<rparr>, example_chi]"
    by code_simp
  have chi: "field_name ([example_psi, example_chi] ! 1) = ''chi''"
    by (simp add: example_chi_def)
  have notin: "''chi'' \<notin> set (activeVars example_block)"
    by (simp add: example_block_def)
  from multiply_frame[OF run] chi notin
  have "[\<lparr>field_name = ''psi'', field_levels = 2,
      field_data = [[3/2, 7/2], [1, 3], [2, 5/2], [1/4, 1/2]]\<rparr>, example_chi] ! 1 =
     [example_psi, example_chi] ! 1"
    by simp
  with run chi notin show ?thesis by (intro conjI)
qed

subsection \<open>The loops over the spectral coefficients\<close>

lemma forE_append:
  "forE (xs @ ys) body s = (case forE xs body s of Inl e \<Rightarrow> Inl e | Inr s' \<Rightarrow> forE ys body s')"
  by (induction xs arbitrary: s) (auto split: sum.splits)

lemma forE_n1_flat:
  "forE ns (\<lambda>n1. forE [0, 1::nat] (\<lambda>img. B n1)) s =
   forE (concat (map (\<lambda>n. [(m, n, 0::nat), (m, n, 1)]) ns)) (\<lambda>row. B (fst (snd row))) s"
  by (induction ns arbitrary: s) (auto split: sum.splits)

lemma forE_rows_flat:
  "forE zw (\<lambda>m1. forE [m1..<Suc N] (\<lambda>n1. forE [0, 1::nat] (\<lambda>img. B n1))) s =
   forE (spectral_rows zw N) (\<lambda>row. B (fst (snd row))) s"
proof (induction zw arbitrary: s)
  case Nil
  then show ?case by (simp add: spectral_rows_def)
next
  case (Cons m zw)
  have sr: "spectral_rows (m # zw) N =
      concat (map (\<lambda>n. [(m, n, 0::nat), (m, n, 1)]) [m..<Suc N]) @ spectral_rows zw N"
    by (simp add: spectral_rows_def)
  have "forE (m # zw) (\<lambda>m1. forE [m1..<Suc N] (\<lambda>n1. forE [0, 1::nat] (\<lambda>img. B n1))) s =
        (case forE [m..<Suc N] (\<lambda>n1. forE [0, 1::nat] (\<lambda>img. B n1)) s of
           Inl e \<Rightarrow> Inl e
         | Inr s' \<Rightarrow> forE zw (\<lambda>m1. forE [m1..<Suc N] (\<lambda>n1. forE [0, 1::nat] (\<lambda>img. B n1))) s')"
    by (rule forE.simps(2))
  also have "\<dots> = (case forE (concat (map (\<lambda>n. [(m, n, 0::nat), (m, n, 1)]) [m..<Suc N]))
                            (\<lambda>row. B (fst (snd row))) s of
           Inl e \<Rightarrow> Inl e
         | Inr s' \<Rightarrow> forE (spectral_rows zw N) (\<lambda>row. B (fst (snd row))) s')"
    by (simp only: forE_n1_flat[where m = m] Cons.IH)
  also have "\<dots> = forE (spectral_rows (m # zw) N) (\<lambda>row. B (fst (snd row))) s"
    by (simp only: sr forE_append)
  finally show ?case .
qed

lemma foldl_add_sum:
  "foldl (\<lambda>s c. s + f c) z [0..<n] = z + (\<Sum>c<n. f c :: real)"
  by (induction n) simp_all

lemma img_body_Inr:
  assumes "img_body vertCov levels n (i, spf) = Inr (i', spf')"
  shows "i' = Suc i \<and> length spf' = length spf \<and> (0 < levels \<longrightarrow> i < length spf) \<and>
         (\<forall>j<length spf. spf' ! j = (if j = i then new_row vertCov levels n (spf ! j) else spf ! j))"
proof (cases "levels = 0")
  case True
  with assms show ?thesis by (auto simp: img_body_def new_row_def)
next
  case False
  with assms have ok: "i < length spf" "levels \<le> length (spf ! i)"
    and res: "i' = Suc i"
      "spf' = spf[i := map (\<lambda>r. foldl (\<lambda>s c. s + vertCov ! n ! r ! c *
                 (map (\<lambda>jl. spf ! i ! jl) [0..<levels]) ! c / real ((2 * n + 1) * length vertCov)) 0
                              [0..<levels]) [0..<levels] @ drop levels (spf ! i)]"
    by (auto simp: img_body_def Let_def split: if_splits)
  have col: "map (\<lambda>r. foldl (\<lambda>s c. s + vertCov ! n ! r ! c *
                 (map (\<lambda>jl. spf ! i ! jl) [0..<levels]) ! c / real ((2 * n + 1) * length vertCov)) 0
                              [0..<levels]) [0..<levels] = map (convolved vertCov levels n (spf ! i)) [0..<levels]"
  proof (rule map_cong[OF refl])
    fix r
    have "(\<Sum>c<levels. vertCov ! n ! r ! c * map ((!) (spf ! i)) [0..<levels] ! c /
             real ((2 * n + 1) * length vertCov)) =
          (\<Sum>c<levels. vertCov ! n ! r ! c * (spf ! i ! c) / real ((2 * n + 1) * length vertCov))"
      by (rule sum.cong) simp_all
    then show "foldl (\<lambda>s c. s + vertCov ! n ! r ! c *
                 (map (\<lambda>jl. spf ! i ! jl) [0..<levels]) ! c / real ((2 * n + 1) * length vertCov)) 0
                              [0..<levels] = convolved vertCov levels n (spf ! i) r"
      unfolding foldl_add_sum convolved_def sum_divide_distrib of_nat_mult by simp
  qed
  show ?thesis using ok res(1) unfolding res(2) col
    by (auto simp: new_row_def nth_list_update)
qed

lemma rows_result:
  "forE rows (\<lambda>row. img_body vertCov levels (fst (snd row))) (i0, spf) = Inr (i, spf') \<Longrightarrow>
     i = i0 + length rows \<and> length spf' = length spf \<and>
     (0 < levels \<longrightarrow> rows \<noteq> [] \<longrightarrow> i0 + length rows \<le> length spf) \<and>
     (\<forall>j<length spf. spf' ! j =
        (if i0 \<le> j \<and> j < i0 + length rows
         then new_row vertCov levels (fst (snd (rows ! (j - i0)))) (spf ! j) else spf ! j))"
proof (induction rows arbitrary: i0 spf)
  case Nil
  then show ?case by auto
next
  case (Cons row rows)
  obtain m n img where row: "row = (m, n, img)" by (cases row) auto
  from Cons.prems row obtain i1 spf1 where
    first: "img_body vertCov levels n (i0, spf) = Inr (i1, spf1)" and
    rest: "forE rows (\<lambda>row. img_body vertCov levels (fst (snd row))) (i1, spf1) = Inr (i, spf')"
    by (auto split: sum.splits)
  note b = img_body_Inr[OF first]
  note ih = Cons.IH[OF rest]
  have i1: "i1 = Suc i0" using b by simp
  show ?case
  proof (intro conjI allI impI)
    show "i = i0 + length (row # rows)" using ih i1 by simp
    show "length spf' = length spf" using ih b by simp
    show "i0 + length (row # rows) \<le> length spf" if "0 < levels"
      using ih b i1 that by (cases "rows = []") auto
  next
    fix j assume j: "j < length spf"
    then have j1: "j < length spf1" using b by simp
    have s1: "spf1 ! j = (if j = i0 then new_row vertCov levels n (spf ! j) else spf ! j)"
      using b j by simp
    have s2: "spf' ! j = (if i1 \<le> j \<and> j < i1 + length rows
         then new_row vertCov levels (fst (snd (rows ! (j - i1)))) (spf1 ! j) else spf1 ! j)"
      using ih j1 by simp
    show "spf' ! j = (if i0 \<le> j \<and> j < i0 + length (row # rows)
          then new_row vertCov levels (fst (snd ((row # rows) ! (j - i0)))) (spf ! j) else spf ! j)"
    proof (cases "j = i0")
      case True
      then show ?thesis using s1 s2 i1 row by simp
    next
      case False
      show ?thesis
      proof (cases "i0 < j")
        case True
        then have "(row # rows) ! (j - i0) = rows ! (j - i1)" using i1
          by (simp add: nth_Cons' Suc_diff_Suc)
        then show ?thesis using s1 s2 i1 True False by auto
      next
        case False
        then show ?thesis using s1 s2 i1 \<open>j \<noteq> i0\<close> by auto
      qed
    qed
  qed
qed


lemma field_Inr_name: "field fs var = Inr f \<Longrightarrow> field_name f = var"
  by (auto simp: field_def find_Some_iff split: option.splits)

lemma field_set_field_data:
  "field fs var = Inr f \<Longrightarrow> field (set_field_data fs var d) var = Inr (f\<lparr>field_data := d\<rparr>)"
  by (induction fs) (auto simp: field_def split: if_splits)

lemma field_set_field_data_other:
  "v \<noteq> var \<Longrightarrow> field (set_field_data fs v d) var = field fs var"
  by (induction fs) (auto simp: field_def)

lemma multiply_var_other:
  "multiply_var self v fs = Inr fs' \<Longrightarrow> v \<noteq> var \<Longrightarrow> field fs' var = field fs var"
  by (auto simp: multiply_var_def field_set_field_data_other split: sum.splits option.splits prod.splits)

lemma multiply_vars_other:
  "forE vars (multiply_var self) fs = Inr fs' \<Longrightarrow> var \<notin> set vars \<Longrightarrow> field fs' var = field fs var"
proof (induction vars arbitrary: fs)
  case Nil
  then show ?case by simp
next
  case (Cons v vars)
  from Cons.prems obtain fs1 where v: "multiply_var self v fs = Inr fs1"
    and rest: "forE vars (multiply_var self) fs1 = Inr fs'"
    by (auto split: sum.splits)
  have "field fs' var = field fs1 var" using Cons.IH[OF rest] Cons.prems(2) by simp
  also have "\<dots> = field fs var" using multiply_var_other[OF v, of var] Cons.prems(2) by auto
  finally show ?case .
qed

lemma multiply_var_self:
  assumes "multiply_var self var fs = Inr fs'" and "field fs var = Inr f"
  shows "\<exists>vertCov i spf'.
           map_of (spectralVerticalCorrelations self) var = Some vertCov \<and>
           forE (spectral_rows (zonal_wavenumbers self) (truncation self))
                (\<lambda>row. img_body vertCov (field_levels f) (fst (snd row))) (0, field_data f) = Inr (i, spf') \<and>
           field fs' var = Inr (f\<lparr>field_data := spf'\<rparr>)"
proof -
  from assms obtain vertCov where cov: "map_of (spectralVerticalCorrelations self) var = Some vertCov"
    by (auto simp: multiply_var_def split: sum.splits option.splits)
  from assms cov obtain i spf' where
    run: "forE (zonal_wavenumbers self) (\<lambda>m1.
            forE [m1..<Suc (truncation self)] (\<lambda>n1.
              forE [0, 1::nat] (\<lambda>img. img_body vertCov (field_levels f) n1)))
            (0, field_data f) = Inr (i, spf')"
    and fs': "fs' = set_field_data fs var spf'"
    unfolding multiply_var_def by (simp split: sum.splits prod.splits)
  have "field fs' var = Inr (f\<lparr>field_data := spf'\<rparr>)"
    unfolding fs' by (rule field_set_field_data[OF assms(2)])
  then show ?thesis using cov run[unfolded forE_rows_flat] by blast
qed

lemma multiply_vars_self:
  "forE vars (multiply_var self) fs = Inr fs' \<Longrightarrow> distinct vars \<Longrightarrow> var \<in> set vars \<Longrightarrow>
   field fs var = Inr f \<Longrightarrow>
     \<exists>vertCov i spf'.
           map_of (spectralVerticalCorrelations self) var = Some vertCov \<and>
           forE (spectral_rows (zonal_wavenumbers self) (truncation self))
                (\<lambda>row. img_body vertCov (field_levels f) (fst (snd row))) (0, field_data f) = Inr (i, spf') \<and>
           field fs' var = Inr (f\<lparr>field_data := spf'\<rparr>)"
proof (induction vars arbitrary: fs)
  case Nil
  then show ?case by simp
next
  case (Cons v vars)
  from Cons.prems(1) obtain fs1 where v: "multiply_var self v fs = Inr fs1"
    and rest: "forE vars (multiply_var self) fs1 = Inr fs'"
    by (auto split: sum.splits)
  show ?case
  proof (cases "v = var")
    case True
    then have "var \<notin> set vars" using Cons.prems(2) by simp
    then have "field fs' var = field fs1 var" by (rule multiply_vars_other[OF rest])
    then show ?thesis using multiply_var_self[OF v[unfolded True] Cons.prems(4)] by simp
  next
    case False
    then have "field fs1 var = Inr f" using multiply_var_other[OF v] Cons.prems(4) by simp
    moreover have "distinct vars" "var \<in> set vars" using Cons.prems False by auto
    ultimately show ?thesis using Cons.IH[OF rest] by blast
  qed
qed

lemma spectral_rows_member:
  "m \<in> set zw \<Longrightarrow> m \<le> n \<Longrightarrow> n \<le> N \<Longrightarrow> img < 2 \<Longrightarrow> (m, n, img) \<in> set (spectral_rows zw N)"
  by (cases "img = 0") (auto simp: spectral_rows_def)

lemma new_row_nth: "r < levels \<Longrightarrow> new_row vertCov levels n row ! r = convolved vertCov levels n row r"
  by (simp add: new_row_def nth_append)

lemma spectral_rows_set:
  "(m, n, img) \<in> set (spectral_rows zw N) \<Longrightarrow> m \<in> set zw \<and> m \<le> n \<and> n \<le> N \<and> img < 2"
  by (auto simp: spectral_rows_def)

text \<open>
  Every row the loops visit is replaced, level by level, by the convolution with the
  matrix of the row's total wavenumber.
\<close>

lemma multiply_field_rows:
  assumes "multiply self fieldSet = Inr fieldSet'"
      and "distinct (activeVars self)"
      and "var \<in> set (activeVars self)"
      and "field fieldSet var = Inr f"
      and "map_of (spectralVerticalCorrelations self) var = Some vertCov"
  shows "\<exists>f'. field fieldSet' var = Inr f' \<and> field_name f' = var \<and>
               field_levels f' = field_levels f \<and>
               (\<forall>i<length (spectral_rows (zonal_wavenumbers self) (truncation self)).
                  \<forall>r<field_levels f.
                     field_data f' ! i ! r =
                       convolved vertCov (field_levels f)
                         (fst (snd (spectral_rows (zonal_wavenumbers self) (truncation self) ! i)))
                         (field_data f ! i) r)"
proof -
  let ?rows = "spectral_rows (zonal_wavenumbers self) (truncation self)"
  from multiply_vars_self[OF assms(1)[unfolded multiply_def] assms(2,3,4)] assms(5)
  obtain i1 spf' where
    run: "forE ?rows (\<lambda>row. img_body vertCov (field_levels f) (fst (snd row))) (0, field_data f)
            = Inr (i1, spf')"
    and f': "field fieldSet' var = Inr (f\<lparr>field_data := spf'\<rparr>)"
    by auto
  note res = rows_result[OF run]
  have conv: "spf' ! i ! r =
      convolved vertCov (field_levels f) (fst (snd (?rows ! i))) (field_data f ! i) r"
    if i: "i < length ?rows" and r: "r < field_levels f" for i r
  proof -
    have "?rows \<noteq> []" using i by auto
    then have "length ?rows \<le> length (field_data f)" using res r by simp
    then have "i < length (field_data f)" using i by simp
    then have "spf' ! i = new_row vertCov (field_levels f) (fst (snd (?rows ! i))) (field_data f ! i)"
      using res i by simp
    then show ?thesis using r by (simp add: new_row_nth)
  qed
  show ?thesis
    using f' field_Inr_name[OF assms(4)] conv by auto
qed

text \<open>
  C3. When multiply returns, for every active variable, every zonal wavenumber m of the
  function space, every total wavenumber n with m \<le> n \<le> truncation and both components,
  the loops visit a row for (m, n, component), and at every such row each level r of the
  new column is the sum over the levels c of the stored matrix entry (n, r, c) times the
  old column's entry c, divided by (2n+1) times the first extent of the correlation
  array. The active variables are taken to be distinct.
\<close>

theorem multiply_convolves_columns:
  assumes "multiply self fieldSet = Inr fieldSet'"
      and "distinct (activeVars self)"
      and "var \<in> set (activeVars self)"
      and "field fieldSet var = Inr f"
      and "map_of (spectralVerticalCorrelations self) var = Some vertCov"
      and "m \<in> set (zonal_wavenumbers self)" and "m \<le> n" and "n \<le> truncation self" and "img < 2"
  shows "\<exists>f'. field fieldSet' var = Inr f' \<and> field_name f' = var \<and>
               field_levels f' = field_levels f \<and>
               (\<exists>i<length (spectral_rows (zonal_wavenumbers self) (truncation self)).
                  spectral_rows (zonal_wavenumbers self) (truncation self) ! i = (m, n, img)) \<and>
               (\<forall>i<length (spectral_rows (zonal_wavenumbers self) (truncation self)).
                  spectral_rows (zonal_wavenumbers self) (truncation self) ! i = (m, n, img) \<longrightarrow>
                  (\<forall>r<field_levels f.
                     field_data f' ! i ! r =
                       (\<Sum>c<field_levels f. vertCov ! n ! r ! c * field_data f ! i ! c) /
                         (real (2 * n + 1) * real (length vertCov))))"
proof -
  let ?rows = "spectral_rows (zonal_wavenumbers self) (truncation self)"
  from multiply_field_rows[OF assms(1-5)] obtain f' where
    f': "field fieldSet' var = Inr f'" "field_name f' = var" "field_levels f' = field_levels f"
    and conv: "\<And>i r. i < length ?rows \<Longrightarrow> r < field_levels f \<Longrightarrow>
       field_data f' ! i ! r =
         convolved vertCov (field_levels f) (fst (snd (?rows ! i))) (field_data f ! i) r"
    by blast
  have ex: "\<exists>i<length ?rows. ?rows ! i = (m, n, img)"
    using spectral_rows_member[OF assms(6-9)] by (simp add: in_set_conv_nth)
  have "field_data f' ! i ! r =
          (\<Sum>c<field_levels f. vertCov ! n ! r ! c * field_data f ! i ! c) /
            (real (2 * n + 1) * real (length vertCov))"
    if "i < length ?rows" "?rows ! i = (m, n, img)" "r < field_levels f" for i r
    using conv[OF that(1,3)] that(2) by (simp add: convolved_def)
  with f' ex show ?thesis by blast
qed

theorem multiply_convolves_columns_witness:
  "multiply example_block [example_psi, example_chi] =
     Inr [\<lparr>field_name = ''psi'', field_levels = 2,
           field_data = [[3/2, 7/2], [1, 3], [2, 5/2], [1/4, 1/2]]\<rparr>, example_chi] \<and>
   distinct (activeVars example_block) \<and>
   ''psi'' \<in> set (activeVars example_block) \<and>
   field [example_psi, example_chi] ''psi'' = Inr example_psi \<and>
   map_of (spectralVerticalCorrelations example_block) ''psi'' =
     Some [[[1, 2], [3, 4]], [[1, 1/2], [1/2, 1]]] \<and>
   (0::nat) \<in> set (zonal_wavenumbers example_block) \<and> (0::nat) \<le> 1 \<and>
   1 \<le> truncation example_block \<and> (0::nat) < 2 \<and>
   spectral_rows (zonal_wavenumbers example_block) (truncation example_block) ! 2 = (0, 1, 0) \<and>
   [[3/2, 7/2], [1, 3], [2, 5/2], [1/4, 1/2]] ! 2 ! 1 =
     (\<Sum>c<2. [[[1, 2], [3, 4]], [[1, 1/2], [1/2, 1]]] ! 1 ! 1 ! c * field_data example_psi ! 2 ! c) /
       (real (2 * 1 + 1) * real (length [[[1, 2], [3, 4]], [[1, 1/2], [1/2, 1::real]]]))"
proof -
  have run: "multiply example_block [example_psi, example_chi] =
     Inr [\<lparr>field_name = ''psi'', field_levels = 2,
           field_data = [[3/2, 7/2], [1, 3], [2, 5/2], [1/4, 1/2]]\<rparr>, example_chi]"
    by code_simp
  have d: "distinct (activeVars example_block)" by (simp add: example_block_def)
  have v: "''psi'' \<in> set (activeVars example_block)" by (simp add: example_block_def)
  have f: "field [example_psi, example_chi] ''psi'' = Inr example_psi"
    by (simp add: field_def example_psi_def)
  have c: "map_of (spectralVerticalCorrelations example_block) ''psi'' =
     Some [[[1, 2], [3, 4]], [[1, 1/2], [1/2, 1]]]"
    by (simp add: example_block_def)
  have m: "(0::nat) \<in> set (zonal_wavenumbers example_block)" by (simp add: example_block_def)
  have mn: "(0::nat) \<le> 1" by simp
  have n: "1 \<le> truncation example_block" by (simp add: example_block_def)
  have img: "(0::nat) < 2" by simp
  have rows: "spectral_rows (zonal_wavenumbers example_block) (truncation example_block)
      = [(0, 0, 0), (0, 0, 1), (0, 1, 0), (0, 1, 1)]"
    by code_simp
  have row: "spectral_rows (zonal_wavenumbers example_block) (truncation example_block) ! 2
      = (0, 1, 0)"
    unfolding rows by simp
  have lv: "field_levels example_psi = 2" by (simp add: example_psi_def)
  have i: "2 < length (spectral_rows (zonal_wavenumbers example_block) (truncation example_block))"
    unfolding rows by simp
  have r: "1 < field_levels example_psi" unfolding lv by simp
  from multiply_convolves_columns[OF run d v f c m mn n img] obtain f' where
    f': "field [\<lparr>field_name = ''psi'', field_levels = 2,
           field_data = [[3/2, 7/2], [1, 3], [2, 5/2], [1/4, 1/2]]\<rparr>, example_chi] ''psi'' = Inr f'"
    and conv: "\<forall>i<length (spectral_rows (zonal_wavenumbers example_block) (truncation example_block)).
        spectral_rows (zonal_wavenumbers example_block) (truncation example_block) ! i = (0, 1, 0) \<longrightarrow>
        (\<forall>r<field_levels example_psi.
           field_data f' ! i ! r =
             (\<Sum>c<field_levels example_psi.
                [[[1, 2], [3, 4]], [[1, 1/2], [1/2, 1]]] ! 1 ! r ! c * field_data example_psi ! i ! c) /
               (real (2 * 1 + 1) * real (length [[[1, 2], [3, 4]], [[1, 1/2], [1/2, 1::real]]])))"
    by blast
  have "field_data f' = [[3/2, 7/2], [1, 3], [2, 5/2], [1/4, 1/2]]"
    using f' by (auto simp: field_def)
  moreover have "field_data f' ! 2 ! 1 =
     (\<Sum>c<field_levels example_psi.
        [[[1, 2], [3, 4]], [[1, 1/2], [1/2, 1]]] ! 1 ! 1 ! c * field_data example_psi ! 2 ! c) /
       (real (2 * 1 + 1) * real (length [[[1, 2], [3, 4]], [[1, 1/2], [1/2, 1::real]]]))"
    using conv i row r by blast
  ultimately have "[[3/2, 7/2], [1, 3], [2, 5/2], [1/4, 1/2]] ! 2 ! 1 =
     (\<Sum>c<2. [[[1, 2], [3, 4]], [[1, 1/2], [1/2, 1]]] ! 1 ! 1 ! c * field_data example_psi ! 2 ! c) /
       (real (2 * 1 + 1) * real (length [[[1, 2], [3, 4]], [[1, 1/2], [1/2, 1::real]]]))"
    unfolding lv by (simp only:)
  with run d v f c m mn n img row show ?thesis by (intro conjI)
qed

subsection \<open>The identity correlation\<close>

text \<open>
  C4 as stated fails: with the identity matrix stored at both total wavenumbers of a
  two-level, single-variable block of truncation 1, multiply changes the field.
\<close>

theorem multiply_identity_counterexample:
  "multiply identity_block [example_psi] =
     Inr [\<lparr>field_name = ''psi'', field_levels = 2,
           field_data = [[1/2, 1/2], [1, 0], [1, 2], [0, 1/2]]\<rparr>] \<and>
   multiply identity_block [example_psi] \<noteq> Inr [example_psi]"
proof -
  have run: "multiply identity_block [example_psi] =
     Inr [\<lparr>field_name = ''psi'', field_levels = 2,
           field_data = [[1/2, 1/2], [1, 0], [1, 2], [0, 1/2]]\<rparr>]"
    by code_simp
  then show ?thesis by (simp add: example_psi_def)
qed

text \<open>
  C4 as amended. For a block with one active variable of two levels whose stored matrix is
  the identity at every total wavenumber up to the truncation, multiply, when it returns,
  has divided every coefficient of every row the loops visit by (2n+1) times the first
  extent of the correlation array, n being the row's total wavenumber.
\<close>

theorem multiply_identity_scales:
  assumes "multiply self fieldSet = Inr fieldSet'"
      and "activeVars self = [var]"
      and "field fieldSet var = Inr f"
      and "field_levels f = 2"
      and "map_of (spectralVerticalCorrelations self) var = Some vertCov"
      and "\<forall>n\<le>truncation self. vertCov ! n = [[1, 0], [0, 1]]"
      and "i < length (spectral_rows (zonal_wavenumbers self) (truncation self))"
      and "spectral_rows (zonal_wavenumbers self) (truncation self) ! i = (m, n, img)"
      and "r < 2"
  shows "\<exists>f'. field fieldSet' var = Inr f' \<and>
               field_data f' ! i ! r =
                 field_data f ! i ! r / (real (2 * n + 1) * real (length vertCov))"
proof -
  let ?rows = "spectral_rows (zonal_wavenumbers self) (truncation self)"
  have d: "distinct (activeVars self)" and v: "var \<in> set (activeVars self)"
    using assms(2) by simp_all
  from multiply_field_rows[OF assms(1) d v assms(3,5)] obtain f' where
    f': "field fieldSet' var = Inr f'"
    and conv: "\<And>i r. i < length ?rows \<Longrightarrow> r < field_levels f \<Longrightarrow>
       field_data f' ! i ! r =
         convolved vertCov (field_levels f) (fst (snd (?rows ! i))) (field_data f ! i) r"
    by blast
  have "(m, n, img) \<in> set ?rows" using assms(7,8) by (metis nth_mem)
  then have "n \<le> truncation self" using spectral_rows_set by blast
  then have idm: "vertCov ! n = [[1, 0], [0, 1]]" using assms(6) by simp
  have r: "r = 0 \<or> r = 1" using assms(9) by auto
  have "convolved vertCov 2 n (field_data f ! i) r =
          field_data f ! i ! r / (real (2 * n + 1) * real (length vertCov))"
    using r by (auto simp: convolved_def idm numeral_2_eq_2 lessThan_Suc)
  then have "field_data f' ! i ! r =
          field_data f ! i ! r / (real (2 * n + 1) * real (length vertCov))"
    using conv[OF assms(7), of r] assms(4,8,9) by simp
  with f' show ?thesis by blast
qed

theorem multiply_identity_scales_witness:
  "multiply identity_block [example_psi] =
     Inr [\<lparr>field_name = ''psi'', field_levels = 2,
           field_data = [[1/2, 1/2], [1, 0], [1, 2], [0, 1/2]]\<rparr>] \<and>
   activeVars identity_block = [''psi''] \<and>
   field [example_psi] ''psi'' = Inr example_psi \<and>
   field_levels example_psi = 2 \<and>
   map_of (spectralVerticalCorrelations identity_block) ''psi'' =
     Some [[[1, 0], [0, 1]], [[1, 0], [0, 1]]] \<and>
   spectral_rows (zonal_wavenumbers identity_block) (truncation identity_block) ! 2 = (0, 1, 0) \<and>
   [[1/2, 1/2], [1, 0], [1, 2], [0, 1/2]] ! 2 ! 1 =
     field_data example_psi ! 2 ! 1 /
       (real (2 * 1 + 1) * real (length [[[1, 0], [0, 1]], [[1, 0], [0, 1::real]]]))"
proof -
  have run: "multiply identity_block [example_psi] =
     Inr [\<lparr>field_name = ''psi'', field_levels = 2,
           field_data = [[1/2, 1/2], [1, 0], [1, 2], [0, 1/2]]\<rparr>]"
    by code_simp
  have a: "activeVars identity_block = [''psi'']" by (simp add: identity_block_def)
  have f: "field [example_psi] ''psi'' = Inr example_psi"
    by (simp add: field_def example_psi_def)
  have lv: "field_levels example_psi = 2" by (simp add: example_psi_def)
  have c: "map_of (spectralVerticalCorrelations identity_block) ''psi'' =
     Some [[[1, 0], [0, 1]], [[1, 0], [0, 1]]]"
    by (simp add: identity_block_def)
  have idm: "\<forall>n\<le>truncation identity_block.
      [[[1, 0], [0, 1]], [[1, 0], [0, 1::real]]] ! n = [[1, 0], [0, 1]]"
    by (simp add: identity_block_def le_Suc_eq)
  have rows: "spectral_rows (zonal_wavenumbers identity_block) (truncation identity_block)
      = [(0, 0, 0), (0, 0, 1), (0, 1, 0), (0, 1, 1)]"
    by code_simp
  have i: "2 < length (spectral_rows (zonal_wavenumbers identity_block) (truncation identity_block))"
    unfolding rows by simp
  have row: "spectral_rows (zonal_wavenumbers identity_block) (truncation identity_block) ! 2
      = (0, 1, 0)"
    unfolding rows by simp
  have r: "(1::nat) < 2" by simp
  from multiply_identity_scales[OF run a f lv c idm i row r] obtain f' where
    f': "field [\<lparr>field_name = ''psi'', field_levels = 2,
           field_data = [[1/2, 1/2], [1, 0], [1, 2], [0, 1/2]]\<rparr>] ''psi'' = Inr f'"
    and sc: "field_data f' ! 2 ! 1 =
       field_data example_psi ! 2 ! 1 /
         (real (2 * 1 + 1) * real (length [[[1, 0], [0, 1]], [[1, 0], [0, 1::real]]]))"
    by blast
  have "field_data f' = [[1/2, 1/2], [1, 0], [1, 2], [0, 1/2]]"
    using f' by (auto simp: field_def)
  with sc have "[[1/2, 1/2], [1, 0], [1, 2], [0, 1/2]] ! 2 ! 1 =
     field_data example_psi ! 2 ! 1 /
       (real (2 * 1 + 1) * real (length [[[1, 0], [0, 1]], [[1, 0], [0, 1::real]]]))"
    by (simp only:)
  with run a f lv c row show ?thesis by (intro conjI)
qed

subsection \<open>multiply returns when the shapes fit\<close>

lemma img_body_zero: "img_body vertCov 0 n (i, spf) = Inr (Suc i, spf)"
  by (simp add: img_body_def)

lemma img_body_fits:
  assumes "i < length spf" and "list_all (\<lambda>row. L \<le> length row) spf"
      and "n < length vertCov" and "L \<le> length (vertCov ! n)"
      and "list_all (\<lambda>r. L \<le> length (vertCov ! n ! r)) [0..<L]"
  shows "\<exists>spf'. img_body vertCov L n (i, spf) = Inr (Suc i, spf') \<and>
                length spf' = length spf \<and> list_all (\<lambda>row. L \<le> length row) spf'"
proof (cases "L = 0")
  case True
  then show ?thesis using assms by (simp add: img_body_def)
next
  case False
  have Li: "L \<le> length (spf ! i)" using assms(1,2) by (simp add: list_all_length)
  define new where "new = map (\<lambda>r. foldl (\<lambda>s c. s + vertCov ! n ! r ! c *
                 (map (\<lambda>jl. spf ! i ! jl) [0..<L]) ! c / real ((2 * n + 1) * length vertCov)) 0
                              [0..<L]) [0..<L] @ drop L (spf ! i)"
  have run: "img_body vertCov L n (i, spf) = Inr (Suc i, spf[i := new])"
    using False assms Li unfolding new_def by (simp add: img_body_def Let_def)
  have Lnew: "L \<le> length new" unfolding new_def by simp
  have "L \<le> length (spf[i := new] ! k)" if "k < length spf" for k
    using that assms(2) Lnew by (cases "k = i") (simp_all add: list_all_length)
  then have "list_all (\<lambda>row. L \<le> length row) (spf[i := new])"
    by (simp add: list_all_length)
  then show ?thesis using run by simp
qed

lemma multiply_var_rows:
  "multiply_var self var fieldSet =
     (case field fieldSet var of
        Inl e \<Rightarrow> Inl e
      | Inr f \<Rightarrow>
          (case map_of (spectralVerticalCorrelations self) var of
             None \<Rightarrow> Inl (FieldNotFound var)
           | Some vertCovView \<Rightarrow>
               (case forE (spectral_rows (zonal_wavenumbers self) (truncation self))
                       (\<lambda>row. img_body vertCovView (field_levels f) (fst (snd row)))
                       (0, field_data f) of
                  Inl e \<Rightarrow> Inl e
                | Inr (i, spfView) \<Rightarrow> Inr (set_field_data fieldSet var spfView))))"
  by (simp only: multiply_var_def forE_rows_flat)

lemma rows_fit:
  assumes "L \<noteq> 0"
  shows "i0 + length rows \<le> length spf \<Longrightarrow> list_all (\<lambda>row. L \<le> length row) spf \<Longrightarrow>
     list_all (\<lambda>row. fst (snd row) < length vertCov \<and> L \<le> length (vertCov ! fst (snd row)) \<and>
                 list_all (\<lambda>r. L \<le> length (vertCov ! fst (snd row) ! r)) [0..<L]) rows \<Longrightarrow>
     \<exists>i spf'. forE rows (\<lambda>row. img_body vertCov L (fst (snd row))) (i0, spf) = Inr (i, spf') \<and>
              length spf' = length spf \<and> list_all (\<lambda>row. L \<le> length row) spf'"
proof (induction rows arbitrary: i0 spf)
  case Nil
  then show ?case by simp
next
  case (Cons row rows)
  have i0: "i0 < length spf" using Cons.prems(1) by simp
  from Cons.prems(3) have c: "fst (snd row) < length vertCov"
      "L \<le> length (vertCov ! fst (snd row))"
      "list_all (\<lambda>r. L \<le> length (vertCov ! fst (snd row) ! r)) [0..<L]"
    and rest: "list_all (\<lambda>row. fst (snd row) < length vertCov \<and> L \<le> length (vertCov ! fst (snd row)) \<and>
                 list_all (\<lambda>r. L \<le> length (vertCov ! fst (snd row) ! r)) [0..<L]) rows"
    by simp_all
  from img_body_fits[OF i0 Cons.prems(2) c] obtain spf1 where
    b: "img_body vertCov L (fst (snd row)) (i0, spf) = Inr (Suc i0, spf1)"
    and l1: "length spf1 = length spf" and a1: "list_all (\<lambda>row. L \<le> length row) spf1"
    by blast
  have "Suc i0 + length rows \<le> length spf1" using Cons.prems(1) l1 by simp
  from Cons.IH[OF this a1 rest] obtain i spf' where
    "forE rows (\<lambda>row. img_body vertCov L (fst (snd row))) (Suc i0, spf1) = Inr (i, spf')"
    "length spf' = length spf1" "list_all (\<lambda>row. L \<le> length row) spf'"
    by blast
  then show ?case using b l1 by simp
qed

lemma rows_zero:
  "\<exists>i. forE rows (\<lambda>row. img_body vertCov 0 (fst (snd row))) (i0, spf) = Inr (i, spf)"
  by (induction rows arbitrary: i0) (simp_all add: img_body_zero)

lemma multiply_var_returns:
  assumes "field fs var = Inr f" and "map_of (spectralVerticalCorrelations self) var = Some vertCov"
      and "fits self f vertCov"
  shows "\<exists>spf'. multiply_var self var fs = Inr (set_field_data fs var spf') \<and>
                length spf' = length (field_data f) \<and>
                list_all (\<lambda>row. field_levels f \<le> length row) spf' =
                  list_all (\<lambda>row. field_levels f \<le> length row) (field_data f)"
proof (cases "field_levels f = 0")
  case True
  from rows_zero[of "spectral_rows (zonal_wavenumbers self) (truncation self)" vertCov 0 "field_data f"]
  obtain i where "forE (spectral_rows (zonal_wavenumbers self) (truncation self))
      (\<lambda>row. img_body vertCov 0 (fst (snd row))) (0, field_data f) = Inr (i, field_data f)"
    by blast
  then have "multiply_var self var fs = Inr (set_field_data fs var (field_data f))"
    using assms(1,2) True by (simp add: multiply_var_rows)
  then show ?thesis by blast
next
  case False
  with assms(3) have
    a: "0 + length (spectral_rows (zonal_wavenumbers self) (truncation self)) \<le> length (field_data f)"
    and b: "list_all (\<lambda>row. field_levels f \<le> length row) (field_data f)"
    and c: "list_all (\<lambda>row. fst (snd row) < length vertCov \<and>
                   field_levels f \<le> length (vertCov ! fst (snd row)) \<and>
                   list_all (\<lambda>r. field_levels f \<le> length (vertCov ! fst (snd row) ! r))
                     [0..<field_levels f])
         (spectral_rows (zonal_wavenumbers self) (truncation self))"
    by (simp_all add: fits_def)
  from rows_fit[OF False a b c] obtain i spf' where
    "forE (spectral_rows (zonal_wavenumbers self) (truncation self))
      (\<lambda>row. img_body vertCov (field_levels f) (fst (snd row))) (0, field_data f) = Inr (i, spf')"
    and s: "length spf' = length (field_data f)"
       "list_all (\<lambda>row. field_levels f \<le> length row) spf'"
    by blast
  then have "multiply_var self var fs = Inr (set_field_data fs var spf')"
    using assms(1,2) by (simp add: multiply_var_rows)
  then show ?thesis using s b by blast
qed

lemma multiply_vars_return:
  "(\<forall>var\<in>set vars. \<exists>f vertCov. field fs var = Inr f \<and>
       map_of (spectralVerticalCorrelations self) var = Some vertCov \<and> fits self f vertCov) \<Longrightarrow>
   \<exists>fs'. forE vars (multiply_var self) fs = Inr fs'"
proof (induction vars arbitrary: fs)
  case Nil
  then show ?case by simp
next
  case (Cons v vars)
  from Cons.prems obtain f vertCov where
    f: "field fs v = Inr f" and c: "map_of (spectralVerticalCorrelations self) v = Some vertCov"
    and fit: "fits self f vertCov"
    by auto
  from multiply_var_returns[OF f c fit] obtain spf' where
    run: "multiply_var self v fs = Inr (set_field_data fs v spf')"
    and l: "length spf' = length (field_data f)"
    and a: "list_all (\<lambda>row. field_levels f \<le> length row) spf' =
              list_all (\<lambda>row. field_levels f \<le> length row) (field_data f)"
    by blast
  have "\<forall>var\<in>set vars. \<exists>f vertCov. field (set_field_data fs v spf') var = Inr f \<and>
       map_of (spectralVerticalCorrelations self) var = Some vertCov \<and> fits self f vertCov"
  proof
    fix var assume var: "var \<in> set vars"
    with Cons.prems obtain g cov where
      g: "field fs var = Inr g" and gc: "map_of (spectralVerticalCorrelations self) var = Some cov"
      and gfit: "fits self g cov"
      by auto
    show "\<exists>f vertCov. field (set_field_data fs v spf') var = Inr f \<and>
       map_of (spectralVerticalCorrelations self) var = Some vertCov \<and> fits self f vertCov"
    proof (cases "var = v")
      case True
      then have "g = f" "cov = vertCov" using g f gc c by simp_all
      have "field (set_field_data fs v spf') var = Inr (f\<lparr>field_data := spf'\<rparr>)"
        using field_set_field_data[OF f] True by simp
      moreover have "fits self (f\<lparr>field_data := spf'\<rparr>) vertCov"
        using fit l a by (simp add: fits_def)
      ultimately show ?thesis using c True by blast
    next
      case False
      then have "field (set_field_data fs v spf') var = Inr g"
        using g by (simp add: field_set_field_data_other)
      then show ?thesis using gc gfit by blast
    qed
  qed
  from Cons.IH[OF this] run show ?case by simp
qed

lemma multiply_returns:
  assumes "\<forall>var\<in>set (activeVars self). \<exists>f vertCov. field fieldSet var = Inr f \<and>
       map_of (spectralVerticalCorrelations self) var = Some vertCov \<and> fits self f vertCov"
  shows "\<exists>fieldSet'. multiply self fieldSet = Inr fieldSet'"
  unfolding multiply_def using assms by (rule multiply_vars_return)

section \<open>Rounding to a double\<close>

lemma rne_unique: "\<bar>y - of_int m\<bar> < 1/2 \<Longrightarrow> rne y = m"
proof -
  assume a: "\<bar>y - of_int m\<bar> < 1/2"
  show ?thesis
  proof (cases "of_int m \<le> y")
    case True
    then have "\<lfloor>y\<rfloor> = m" using a by (intro floor_unique) auto
    then show ?thesis using a True by (simp add: rne_def)
  next
    case False
    then have f: "\<lfloor>y\<rfloor> = m - 1" using a by (intro floor_unique) auto
    have "1/2 < y - of_int (m - 1)" using a False by auto
    then show ?thesis using f by (simp add: rne_def Let_def)
  qed
qed

lemma floor_log2:
  assumes "2 powr of_int e \<le> x" and "x < 2 powr (of_int e + 1)"
  shows "\<lfloor>log 2 x\<rfloor> = e"
proof -
  have pos: "0 < x" using assms(1) by (smt (verit) powr_gt_zero)
  have "of_int e \<le> log 2 x" using assms(1) pos by (simp add: le_log_iff)
  moreover have "log 2 x < of_int e + 1" using assms(2) pos by (simp add: log_less_iff)
  ultimately show ?thesis by (intro floor_unique) auto
qed

lemma small_less_huge: "\<bar>r\<bar> \<le> 4 \<Longrightarrow> \<bar>r\<bar> < huge"
proof -
  have "(4::real) < huge" by (simp add: huge_def)
  then show "\<bar>r\<bar> \<le> 4 \<Longrightarrow> \<bar>r\<bar> < huge" by simp
qed

lemma fl_eval:
  assumes "2 powr of_int e \<le> \<bar>x\<bar>" and "\<bar>x\<bar> < 2 powr (of_int e + 1)" and "-1022 \<le> e"
      and "\<bar>x / 2 powr (of_int e - 52) - of_int m\<bar> < 1/2"
      and "m \<noteq> 0" and "\<bar>2 powr (of_int e - 52) * of_int m\<bar> \<le> (4::real)"
  shows "fl x = Val (2 powr (of_int e - 52) * of_int m)"
proof -
  have e: "max \<lfloor>log 2 \<bar>x\<bar>\<rfloor> (-1022) = e" using floor_log2[OF assms(1,2)] assms(3) by simp
  have r: "rne (x / 2 powr (of_int e - 52)) = m" using assms(4) by (rule rne_unique)
  have nz: "2 powr (of_int e - 52) * of_int m \<noteq> (0::real)" using assms(5) by simp
  have "\<not> huge \<le> \<bar>2 powr (of_int e - 52) * of_int m\<bar>"
    using small_less_huge[OF assms(6)] by simp
  then show ?thesis unfolding fl_def e Let_def r using nz by simp
qed

lemma fl_1: "fl 1 = Val 1"
  using fl_eval[of 0 1 "2 ^ 52"] by (simp add: powr_minus_divide)

lemma fl_2: "fl 2 = Val 2"
  using fl_eval[of 1 2 "2 ^ 52"] by (simp add: powr_minus_divide)

lemma fl_sqrt2: "fl (sqrt 2) = Val (6369051672525773 / 2 ^ 52)"
proof -
  have lo: "12738103345051545 / 2 ^ 53 < sqrt 2"
    by (rule real_less_rsqrt) (simp add: power_divide)
  have hi: "sqrt 2 < 12738103345051547 / 2 ^ 53"
    by (rule real_less_lsqrt) (simp_all add: power_divide)
  have lo': "6369051672525773 - 1/2 < sqrt 2 * 2 ^ 52" using lo by (simp add: field_simps)
  have hi': "sqrt 2 * 2 ^ 52 < 6369051672525773 + 1/2" using hi by (simp add: field_simps)
  have "\<bar>sqrt 2 * 2 ^ 52 - 6369051672525773\<bar> < 1/2" using lo' hi' by linarith
  then have a: "\<bar>sqrt 2 / 2 powr (of_int 0 - 52) - of_int 6369051672525773\<bar> < 1/2"
    by (simp add: powr_minus_divide)
  have b: "2 powr of_int 0 \<le> \<bar>sqrt 2\<bar>" by simp
  have c: "\<bar>sqrt 2\<bar> < 2 powr (of_int 0 + 1)"
    using real_less_lsqrt[of 2 2] by simp
  have "fl (sqrt 2) = Val (2 powr (of_int 0 - 52) * of_int 6369051672525773)"
    by (rule fl_eval[OF b c _ a]) (simp_all add: powr_minus_divide)
  then show ?thesis by (simp add: powr_minus_divide)
qed

lemma fl_root: "fl (6369051672525773 / 2 ^ 52) = Val (6369051672525773 / 2 ^ 52)"
  using fl_eval[of 0 "6369051672525773 / 2 ^ 52" 6369051672525773]
  by (simp add: powr_minus_divide)

lemma fl_root_square:
  "fl (6369051672525773 / 2 ^ 52 * (6369051672525773 / 2 ^ 52)) = Val (4503599627370497 / 2 ^ 51)"
  using fl_eval[of 1 "6369051672525773 / 2 ^ 52 * (6369051672525773 / 2 ^ 52)" 4503599627370497]
  by (simp add: powr_minus_divide)

section \<open>Properties of ErrorCovariance\<close>

lemma applyWeight_weighted:
  "applyWeight (*\<^sub>R) mulFieldSet s w x = weighted mulFieldSet s w x"
  by (simp add: applyWeight_def weighted_def)

lemma foldl_plus_sum:
  "foldl (\<lambda>acc jj. acc + g jj) z [0..<n] = z + (\<Sum>jj<n. g jj :: 'a::comm_monoid_add)"
  by (induction n) (simp_all add: add.assoc)

lemma foldl_addComponent:
  "foldl (addComponent B) self cs =
     self\<lparr>hybridScalarWeightSqrt :=
            hybridScalarWeightSqrt self @ map (\<lambda>cmp. std_sqrt B (getDouble (weight_value cmp) 1)) cs,
          hybridFieldWeightSqrt :=
            hybridFieldWeightSqrt self @
              map (\<lambda>cmp. case weight_file cmp of
                 Some file \<Rightarrow> sqrtFieldSet B (readHybridWeight B file)
               | None \<Rightarrow> []) cs,
          hybridBlockChain :=
            hybridBlockChain self @
              map (\<lambda>cmp. if cmpBlockName cmp = ''Ensemble''
               then newSaberEnsembleBlockChain B (covariance cmp)
               else newSaberParametricBlockChain B (covariance cmp)) cs\<rparr>"
  by (induction cs arbitrary: self) (simp_all add: addComponent_def)

lemma newErrorCovariance_lengths:
  "length (hybridScalarWeightSqrt (newErrorCovariance B params)) =
     length (hybridBlockChain (newErrorCovariance B params)) \<and>
   length (hybridFieldWeightSqrt (newErrorCovariance B params)) =
     length (hybridBlockChain (newErrorCovariance B params))"
  by (simp add: newErrorCovariance_def foldl_addComponent)

text \<open>
  C1. For a covariance with a shared outer block chain, doMultiply applies the outer
  chain's adjoint to the copied input once; each component scales that result by its
  scalar square-root weight (and by its field weight when that is not empty), applies
  the component chain's multiply and scales again by the same weights; the components are
  summed, and the outer chain is applied forward once to the sum. The three vectors of
  the class have one entry per component.
\<close>

theorem doMultiply_hybrid:
  fixes self :: "('f::real_vector, 'w, real) ErrorCovariance"
  assumes "outerBlockChain self = Some chain"
      and "length (hybridScalarWeightSqrt self) = length (hybridBlockChain self)"
      and "length (hybridFieldWeightSqrt self) = length (hybridBlockChain self)"
  shows "doMultiply (*\<^sub>R) mulFieldSet self dxi_inc =
           Some (applyOuterBlocks chain
                  (\<Sum>jj<length (hybridBlockChain self).
                     weighted mulFieldSet (hybridScalarWeightSqrt self ! jj) (hybridFieldWeightSqrt self ! jj)
                       ((hybridBlockChain self ! jj)
                          (weighted mulFieldSet (hybridScalarWeightSqrt self ! jj)
                             (hybridFieldWeightSqrt self ! jj)
                             (applyOuterBlocksAD chain dxi_inc)))))"
  using assms
  by (simp add: doMultiply_def hybridComponent_def applyWeight_weighted foldl_plus_sum Let_def)

theorem doMultiply_hybrid_witness:
  "outerBlockChain example_covariance =
     Some \<lparr>applyOuterBlocks = (\<lambda>x. 2 * x), applyOuterBlocksAD = (\<lambda>x. 2 * x)\<rparr> \<and>
   length (hybridScalarWeightSqrt example_covariance) = length (hybridBlockChain example_covariance) \<and>
   length (hybridFieldWeightSqrt example_covariance) = length (hybridBlockChain example_covariance) \<and>
   doMultiply (*\<^sub>R) example_mulFieldSet example_covariance 1 = Some 158"
proof -
  have o: "outerBlockChain example_covariance =
     Some \<lparr>applyOuterBlocks = (\<lambda>x. 2 * x), applyOuterBlocksAD = (\<lambda>x. 2 * x)\<rparr>"
    by (simp add: example_covariance_def)
  have l1: "length (hybridScalarWeightSqrt example_covariance) =
      length (hybridBlockChain example_covariance)"
    by (simp add: example_covariance_def)
  have l2: "length (hybridFieldWeightSqrt example_covariance) =
      length (hybridBlockChain example_covariance)"
    by (simp add: example_covariance_def)
  have "doMultiply (*\<^sub>R) example_mulFieldSet example_covariance 1 = Some 158"
    unfolding doMultiply_hybrid[OF o l1 l2]
    by (simp add: example_covariance_def example_mulFieldSet_def weighted_def
          numeral_2_eq_2 lessThan_Suc)
  with o l1 l2 show ?thesis by (intro conjI)
qed

subsection \<open>The covariance that is not hybrid\<close>


lemma double_zero_plus: "(0::double) + x = (if x = NegZero then Val 0 else x)"
  by (cases x) (simp_all add: zero_double_def plus_double_def dplus_def is_zero_def is_inf_def)



subsection \<open>Scaling the weight of a component\<close>

lemma doMultiply_sum:
  fixes self :: "('f::real_vector, 'w, real) ErrorCovariance"
  assumes "length (hybridScalarWeightSqrt self) = length (hybridBlockChain self)"
      and "length (hybridFieldWeightSqrt self) = length (hybridBlockChain self)"
  shows "doMultiply (*\<^sub>R) mulFieldSet self dxi_inc =
           Some (outerForward self
                  (\<Sum>jj<length (hybridBlockChain self).
                     hybridComponent (*\<^sub>R) mulFieldSet self jj (outerAD self dxi_inc)))"
  using assms
  by (simp add: doMultiply_def outerForward_def outerAD_def foldl_plus_sum Let_def
           split: option.splits)

lemma hybrid_entries:
  assumes "saberBlockName params = ''Hybrid''" and "jj < length (components params)"
  shows "hybridScalarWeightSqrt (newErrorCovariance B params) ! jj =
           std_sqrt B (getDouble (weight_value (components params ! jj)) 1)"
    and "hybridFieldWeightSqrt (newErrorCovariance B params) ! jj =
           (case weight_file (components params ! jj) of
              Some file \<Rightarrow> sqrtFieldSet B (readHybridWeight B file)
            | None \<Rightarrow> [])"
    and "hybridBlockChain (newErrorCovariance B params) ! jj =
           (if cmpBlockName (components params ! jj) = ''Ensemble''
            then newSaberEnsembleBlockChain B (covariance (components params ! jj))
            else newSaberParametricBlockChain B (covariance (components params ! jj)))"
    and "length (hybridBlockChain (newErrorCovariance B params)) = length (components params)"
    and "outerBlockChain (newErrorCovariance B params) =
           map_option (newSaberOuterBlockChain B) (saberOuterBlocksParams params)"
  using assms by (simp_all add: newErrorCovariance_def foldl_addComponent)

lemma scaleComponent_fields:
  "saberBlockName (scaleComponent i k params) = saberBlockName params"
  "saberOuterBlocksParams (scaleComponent i k params) = saberOuterBlocksParams params"
  "length (components (scaleComponent i k params)) = length (components params)"
  "jj < length (components params) \<Longrightarrow> jj \<noteq> i \<Longrightarrow>
     components (scaleComponent i k params) ! jj = components params ! jj"
  "i < length (components params) \<Longrightarrow>
     components (scaleComponent i k params) ! i = scaleWeight k (components params ! i)"
  by (simp_all add: scaleComponent_def)

text \<open>
  C6 as stated fails on doubles: for a hybrid of one component with the ID block as its
  chain, multiplying the weight 1.0 by 2.0 stores the rounded square root of 2, and
  doMultiply on the field set of value 1.0 returns that root times itself, rounded, which
  is 2 + 2^-51 and not 2.0 times the 1.0 returned for the weight 1.0.
\<close>

theorem weight_scaling_rounding_counterexample:
  "doMultiply (*) double_mulFieldSet (newErrorCovariance double_builders double_hybrid) (Val 1) =
     Some (Val 1) \<and>
   doMultiply (*) double_mulFieldSet
     (newErrorCovariance double_builders (scaleComponent 0 (Val 2) double_hybrid)) (Val 1) =
     Some (Val (4503599627370497 / 2 ^ 51)) \<and>
   Val 2 * Val 1 = Val 2 \<and>
   Val (4503599627370497 / 2 ^ 51) \<noteq> Val 2"
proof -
  have times_val: "Val a * Val b = fl (a * b)" if "a \<noteq> 0" "b \<noteq> 0" for a b
    using that by (simp add: times_double_def dtimes_def is_zero_def is_inf_def)
  have two: "Val 2 * Val 1 = Val 2" by (simp add: times_val fl_2)
  have w2: "components (scaleComponent 0 (Val 2) double_hybrid) =
      [\<lparr>weight_value = Some (Val 2), weight_file = None, cmpBlockName = ''ID'', covariance = ()\<rparr>]"
    using two
    by (simp add: scaleComponent_def scaleWeight_def double_hybrid_def getDouble_def one_double_def)
  have cov1: "newErrorCovariance double_builders double_hybrid =
      \<lparr>outerBlockChain = None, hybridBlockChain = [\<lambda>x. x],
       hybridScalarWeightSqrt = [Val 1], hybridFieldWeightSqrt = [[]]\<rparr>"
    by (simp add: newErrorCovariance_def double_hybrid_def double_builders_def addComponent_def
          getDouble_def dsqrt_def one_double_def fl_1)
  have cov2: "newErrorCovariance double_builders (scaleComponent 0 (Val 2) double_hybrid) =
      \<lparr>outerBlockChain = None, hybridBlockChain = [\<lambda>x. x],
       hybridScalarWeightSqrt = [Val (6369051672525773 / 2 ^ 52)], hybridFieldWeightSqrt = [[]]\<rparr>"
    using w2
    by (simp add: newErrorCovariance_def scaleComponent_def double_hybrid_def double_builders_def
          addComponent_def getDouble_def dsqrt_def fl_sqrt2)
  have r1: "Val (6369051672525773 / 2 ^ 52) * Val 1 = Val (6369051672525773 / 2 ^ 52)"
    using fl_root by (simp add: times_val)
  have r2: "Val (6369051672525773 / 2 ^ 52) * Val (6369051672525773 / 2 ^ 52) =
      Val (4503599627370497 / 2 ^ 51)"
    using fl_root_square by (simp add: times_val)
  have z: "(0::double) + Val a = Val a" for a
    by (simp add: double_zero_plus)
  have ne1: "Val (6369051672525773 / 2 ^ 52) \<noteq> (1::double)" by (simp add: one_double_def)
  have run1: "doMultiply (*) double_mulFieldSet (newErrorCovariance double_builders double_hybrid)
      (Val 1) = Some (Val 1)"
    unfolding cov1 by (simp add: doMultiply_def hybridComponent_def applyWeight_def z one_double_def)
  have r1n: "Val (6369051672525773 / 4503599627370496) * Val 1 =
      Val (6369051672525773 / 4503599627370496)"
    using r1 by simp
  have r2n: "Val (6369051672525773 / 4503599627370496) * Val (6369051672525773 / 4503599627370496) =
      Val (4503599627370497 / 2251799813685248)"
    using r2 by simp
  have run2: "doMultiply (*) double_mulFieldSet
     (newErrorCovariance double_builders (scaleComponent 0 (Val 2) double_hybrid)) (Val 1) =
     Some (Val (4503599627370497 / 2 ^ 51))"
    unfolding cov2 using ne1
    by (simp add: doMultiply_def hybridComponent_def applyWeight_def z r1n r2n)
  have ne: "Val (4503599627370497 / 2 ^ 51) \<noteq> Val 2" by simp
  from run1 run2 two ne show ?thesis by (intro conjI)
qed

text \<open>
  C6 as amended. With the arithmetic of the scalar weights taken exact (the weights are
  reals and std::sqrt is the real square root), a factor k and a configured weight that
  are not negative, and a component i whose chain multiply and field-weight
  multiplication commute with scaling: the constructor stores the square root of the
  configured weight, and multiplying that weight by k multiplies by k the field set that
  component i adds to the sum of doMultiply and leaves the other components' as they are,
  so that doMultiply returns the outer chain's forward application of the sum with the
  term of component i scaled by k.
\<close>

theorem weight_scaling:
  fixes B :: "('f::real_vector, 'w, 'c, real) Builders"
  assumes "saberBlockName params = ''Hybrid''"
      and "i < length (components params)"
      and "std_sqrt B = sqrt"
      and "0 \<le> k"
      and "0 \<le> getDouble (weight_value (components params ! i)) 1"
      and "\<forall>c x. (hybridBlockChain (newErrorCovariance B params) ! i) (c *\<^sub>R x) =
                   c *\<^sub>R (hybridBlockChain (newErrorCovariance B params) ! i) x"
      and "\<forall>w c x. mulFieldSet w (c *\<^sub>R x) = c *\<^sub>R mulFieldSet w x"
  shows "hybridScalarWeightSqrt (newErrorCovariance B params) ! i =
           sqrt (getDouble (weight_value (components params ! i)) 1) \<and>
         doMultiply (*\<^sub>R) mulFieldSet (newErrorCovariance B params) dxi_inc =
           Some (outerForward (newErrorCovariance B params)
                  (\<Sum>jj<length (components params).
                     hybridComponent (*\<^sub>R) mulFieldSet (newErrorCovariance B params) jj
                       (outerAD (newErrorCovariance B params) dxi_inc))) \<and>
         doMultiply (*\<^sub>R) mulFieldSet (newErrorCovariance B (scaleComponent i k params)) dxi_inc =
           Some (outerForward (newErrorCovariance B params)
                  (\<Sum>jj<length (components params).
                     if jj = i
                     then k *\<^sub>R hybridComponent (*\<^sub>R) mulFieldSet (newErrorCovariance B params) jj
                                 (outerAD (newErrorCovariance B params) dxi_inc)
                     else hybridComponent (*\<^sub>R) mulFieldSet (newErrorCovariance B params) jj
                            (outerAD (newErrorCovariance B params) dxi_inc)))"
proof -
  let ?cov = "newErrorCovariance B params"
  let ?params' = "scaleComponent i k params"
  let ?cov' = "newErrorCovariance B ?params'"
  let ?n = "length (components params)"
  let ?cmp = "components params ! i"
  let ?v = "getDouble (weight_value ?cmp) 1"
  let ?L = "hybridBlockChain ?cov ! i"
  let ?w = "hybridFieldWeightSqrt ?cov ! i"
  have hyb': "saberBlockName ?params' = ''Hybrid''"
    using assms(1) by (simp add: scaleComponent_fields)
  have len': "length (components ?params') = ?n" by (simp add: scaleComponent_fields)
  have n: "length (hybridBlockChain ?cov) = ?n" using hybrid_entries(4)[OF assms(1,2)] .
  have i': "i < length (components ?params')" using assms(2) len' by simp
  have n': "length (hybridBlockChain ?cov') = ?n" using hybrid_entries(4)[OF hyb' i'] len' by simp
  have outer: "outerBlockChain ?cov' = outerBlockChain ?cov"
    using hybrid_entries(5)[OF hyb' i', of B] hybrid_entries(5)[OF assms(1,2), of B]
    by (simp add: scaleComponent_fields)
  have fwd: "outerForward ?cov' = outerForward ?cov" and ad: "outerAD ?cov' = outerAD ?cov"
    using outer by (simp_all add: outerForward_def outerAD_def fun_eq_iff)
  have s: "hybridScalarWeightSqrt ?cov ! i = sqrt ?v"
    using hybrid_entries(1)[OF assms(1,2), of B] assms(3) by simp
  have same: "hybridComponent (*\<^sub>R) mulFieldSet ?cov' jj y =
                hybridComponent (*\<^sub>R) mulFieldSet ?cov jj y"
    if jj: "jj < ?n" "jj \<noteq> i" for jj y
  proof -
    have jj': "jj < length (components ?params')" using jj len' by simp
    have c: "components ?params' ! jj = components params ! jj"
      using jj by (simp add: scaleComponent_fields)
    have "hybridScalarWeightSqrt ?cov' ! jj = hybridScalarWeightSqrt ?cov ! jj"
         "hybridFieldWeightSqrt ?cov' ! jj = hybridFieldWeightSqrt ?cov ! jj"
         "hybridBlockChain ?cov' ! jj = hybridBlockChain ?cov ! jj"
      using hybrid_entries(1-3)[OF hyb' jj', of B] hybrid_entries(1-3)[OF assms(1) jj(1), of B] c
      by simp_all
    then show ?thesis by (simp add: hybridComponent_def)
  qed
  have scaled: "hybridComponent (*\<^sub>R) mulFieldSet ?cov' i y =
                  k *\<^sub>R hybridComponent (*\<^sub>R) mulFieldSet ?cov i y" for y
  proof -
    have c: "components ?params' ! i = scaleWeight k ?cmp"
      using assms(2) by (simp add: scaleComponent_fields)
    have s': "hybridScalarWeightSqrt ?cov' ! i = sqrt k * sqrt ?v"
      using hybrid_entries(1)[OF hyb' i', of B] assms(3) c
      by (simp add: scaleWeight_def getDouble_def real_sqrt_mult)
    have L': "hybridBlockChain ?cov' ! i = ?L"
      using hybrid_entries(3)[OF hyb' i', of B] hybrid_entries(3)[OF assms(1,2), of B] c
      by (simp add: scaleWeight_def)
    have w': "hybridFieldWeightSqrt ?cov' ! i = ?w"
      using hybrid_entries(2)[OF hyb' i', of B] hybrid_entries(2)[OF assms(1,2), of B] c
      by (simp add: scaleWeight_def)
    have homL: "?L (c *\<^sub>R x) = c *\<^sub>R ?L x" for c x
      using assms(6) by simp
    have homW: "weighted mulFieldSet a ?w (c *\<^sub>R x) = c *\<^sub>R weighted mulFieldSet a ?w x" for a c x
      using assms(7) by (simp add: weighted_def mult.commute)
    have wsplit: "weighted mulFieldSet (a * b) ?w x = a *\<^sub>R weighted mulFieldSet b ?w x" for a b x
      using assms(7) by (simp add: weighted_def)
    have kk: "sqrt k * sqrt k = k" using assms(4) by simp
    have "hybridComponent (*\<^sub>R) mulFieldSet ?cov' i y =
            weighted mulFieldSet (sqrt k * sqrt ?v) ?w
              (?L (weighted mulFieldSet (sqrt k * sqrt ?v) ?w y))"
      by (simp add: hybridComponent_def applyWeight_weighted s' L' w' Let_def)
    also have "\<dots> = (sqrt k * sqrt k) *\<^sub>R
            weighted mulFieldSet (sqrt ?v) ?w (?L (weighted mulFieldSet (sqrt ?v) ?w y))"
      by (simp add: wsplit homL homW)
    also have "\<dots> = k *\<^sub>R hybridComponent (*\<^sub>R) mulFieldSet ?cov i y"
      unfolding kk by (simp add: hybridComponent_def applyWeight_weighted s Let_def)
    finally show ?thesis .
  qed
  have run: "doMultiply (*\<^sub>R) mulFieldSet ?cov dxi_inc =
      Some (outerForward ?cov
             (\<Sum>jj<?n. hybridComponent (*\<^sub>R) mulFieldSet ?cov jj (outerAD ?cov dxi_inc)))"
    using doMultiply_sum[of ?cov mulFieldSet dxi_inc] newErrorCovariance_lengths[of B params] n
    by simp
  have "doMultiply (*\<^sub>R) mulFieldSet ?cov' dxi_inc =
      Some (outerForward ?cov
             (\<Sum>jj<?n. hybridComponent (*\<^sub>R) mulFieldSet ?cov' jj (outerAD ?cov dxi_inc)))"
    using doMultiply_sum[of ?cov' mulFieldSet dxi_inc] newErrorCovariance_lengths[of B ?params'] n'
    by (simp add: fwd ad)
  also have "(\<Sum>jj<?n. hybridComponent (*\<^sub>R) mulFieldSet ?cov' jj (outerAD ?cov dxi_inc)) =
      (\<Sum>jj<?n. if jj = i
                 then k *\<^sub>R hybridComponent (*\<^sub>R) mulFieldSet ?cov jj (outerAD ?cov dxi_inc)
                 else hybridComponent (*\<^sub>R) mulFieldSet ?cov jj (outerAD ?cov dxi_inc))"
    by (rule sum.cong) (auto simp: same scaled)
  finally show ?thesis using s run by simp
qed

theorem weight_scaling_witness:
  "saberBlockName example_hybrid = ''Hybrid'' \<and>
   0 < length (components example_hybrid) \<and>
   std_sqrt example_builders = sqrt \<and>
   (0::real) \<le> 9 \<and>
   0 \<le> getDouble (weight_value (components example_hybrid ! 0)) 1 \<and>
   (\<forall>c x. (hybridBlockChain (newErrorCovariance example_builders example_hybrid) ! 0) (c *\<^sub>R x) =
           c *\<^sub>R (hybridBlockChain (newErrorCovariance example_builders example_hybrid) ! 0) x) \<and>
   (\<forall>w c x. example_mulFieldSet w (c *\<^sub>R x) = c *\<^sub>R example_mulFieldSet w x) \<and>
   hybridScalarWeightSqrt (newErrorCovariance example_builders example_hybrid) ! 0 = 2 \<and>
   doMultiply (*\<^sub>R) example_mulFieldSet (newErrorCovariance example_builders example_hybrid) 1 =
     Some 68 \<and>
   doMultiply (*\<^sub>R) example_mulFieldSet
     (newErrorCovariance example_builders (scaleComponent 0 9 example_hybrid)) 1 = Some 452"
proof -
  have h: "saberBlockName example_hybrid = ''Hybrid''" by (simp add: example_hybrid_def)
  have i: "0 < length (components example_hybrid)" by (simp add: example_hybrid_def)
  have q: "std_sqrt example_builders = sqrt" by (simp add: example_builders_def)
  have k: "(0::real) \<le> 9" by simp
  have v: "0 \<le> getDouble (weight_value (components example_hybrid ! 0)) 1"
    by (simp add: example_hybrid_def getDouble_def)
  have cov: "newErrorCovariance example_builders example_hybrid =
      \<lparr>outerBlockChain = Some \<lparr>applyOuterBlocks = (\<lambda>x. 2 * x), applyOuterBlocksAD = (\<lambda>x. 2 * x)\<rparr>,
       hybridBlockChain = [\<lambda>x. 3 * x, \<lambda>x. 5 * x],
       hybridScalarWeightSqrt = [2, 1], hybridFieldWeightSqrt = [[], []]\<rparr>"
    by (simp add: newErrorCovariance_def example_hybrid_def example_builders_def
          addComponent_def getDouble_def)
  have homL: "\<forall>c x. (hybridBlockChain (newErrorCovariance example_builders example_hybrid) ! 0)
                 (c *\<^sub>R x) =
           c *\<^sub>R (hybridBlockChain (newErrorCovariance example_builders example_hybrid) ! 0) x"
    unfolding cov by simp
  have homW: "\<forall>w c x. example_mulFieldSet w (c *\<^sub>R x) = c *\<^sub>R example_mulFieldSet w x"
    by (simp add: example_mulFieldSet_def)
  have n: "length (components example_hybrid) = 2" by (simp add: example_hybrid_def)
  have ad: "outerAD (newErrorCovariance example_builders example_hybrid) 1 = 2"
    unfolding cov by (simp add: outerAD_def)
  have c0: "hybridComponent (*\<^sub>R) example_mulFieldSet
      (newErrorCovariance example_builders example_hybrid) 0 2 = 24"
    unfolding cov by (simp add: hybridComponent_def applyWeight_def)
  have c1: "hybridComponent (*\<^sub>R) example_mulFieldSet
      (newErrorCovariance example_builders example_hybrid) (Suc 0) 2 = 10"
    unfolding cov by (simp add: hybridComponent_def applyWeight_def)
  have fwd: "outerForward (newErrorCovariance example_builders example_hybrid) y = 2 * y" for y
    unfolding cov by (simp add: outerForward_def)
  note t = weight_scaling[OF h i q k v homL homW, of 1, unfolded n ad]
  have s: "hybridScalarWeightSqrt (newErrorCovariance example_builders example_hybrid) ! 0 = 2"
    using t by (simp add: example_hybrid_def getDouble_def)
  have r1: "doMultiply (*\<^sub>R) example_mulFieldSet
      (newErrorCovariance example_builders example_hybrid) 1 = Some 68"
    using t by (simp add: numeral_2_eq_2 lessThan_Suc c0 c1 fwd)
  have r2: "doMultiply (*\<^sub>R) example_mulFieldSet
     (newErrorCovariance example_builders (scaleComponent 0 9 example_hybrid)) 1 = Some 452"
    using t by (simp add: numeral_2_eq_2 lessThan_Suc c0 c1 fwd)
  from h i q k v homL homW s r1 r2 show ?thesis by (intro conjI)
qed

section \<open>Properties of adjointTest\<close>

text \<open>
  C2. adjointTest draws two field sets x and y one after the other, applies the block's
  multiply to both and compares dp1 = <Ax, y> with dp2 = <Ay, x> on the saved copies: it
  returns normally exactly when |dp1 - dp2| / |0.5 (dp1 + dp2)| is smaller than the
  tolerance (a comparison that is false on doubles when the denominator is zero), and
  otherwise it throws an eckit Exception.
\<close>

theorem adjointTest_passes_iff:
  assumes "createRandomFieldSet g = (x, g1)" and "createRandomFieldSet g1 = (y, g2)"
  shows "(fst (adjointTest createRandomFieldSet A dot blockName adjointTolerance g) = Inr () \<longleftrightarrow>
            0.5 * (dot (A x) y + dot (A y) x) \<noteq> 0 \<and>
            \<bar>dot (A x) y - dot (A y) x\<bar> / \<bar>0.5 * (dot (A x) y + dot (A y) x)\<bar> < adjointTolerance) \<and>
         (fst (adjointTest createRandomFieldSet A dot blockName adjointTolerance g) \<noteq> Inr () \<longrightarrow>
            fst (adjointTest createRandomFieldSet A dot blockName adjointTolerance g) =
              Inl (Exception (''Adjoint test failure for block '' @ blockName)))"
  using assms by (simp add: adjointTest_def Let_def)

theorem adjointTest_passes_iff_witness:
  "example_draw [(1, 0), (0, 1)] = ((1, 0), [(0, 1)]) \<and>
   example_draw [(0, 1)] = ((0, 1), []) \<and>
   example_dot (example_shift (1, 0)) (0, 1) = 0 \<and>
   example_dot (example_shift (0, 1)) (1, 0) = 1 \<and>
   fst (adjointTest example_draw example_shift example_dot ''ID'' (1/1000) [(1, 0), (0, 1)]) =
     Inl (Exception ''Adjoint test failure for block ID'')"
proof -
  have d1: "example_draw [(1, 0), (0, 1)] = ((1, 0), [(0, 1)])" by (simp add: example_draw_def)
  have d2: "example_draw [(0, 1)] = ((0, 1), [])" by (simp add: example_draw_def)
  have p1: "example_dot (example_shift (1, 0)) (0, 1) = 0"
    by (simp add: example_dot_def example_shift_def)
  have p2: "example_dot (example_shift (0, 1)) (1, 0) = 1"
    by (simp add: example_dot_def example_shift_def)
  have "fst (adjointTest example_draw example_shift example_dot ''ID'' (1/1000) [(1, 0), (0, 1)]) =
     Inl (Exception ''Adjoint test failure for block ID'')"
    using adjointTest_passes_iff[OF d1 d2, of example_shift example_dot "''ID''" "1/1000"]
    unfolding p1 p2 by simp
  with d1 d2 p1 p2 show ?thesis by (intro conjI)
qed

section \<open>Properties of the missing-field checks\<close>

lemma report_missing_aborts:
  assumes "\<exists>s\<in>set vars. take 6 s \<noteq> ''filled''"
  shows "report_missing myname tag msg vars = (map (\<lambda>s. [myname, tag, trim s]) vars, Some (myname @ msg))"
  using assms by (simp add: report_missing_def)

lemma two_unfilled_some:
  "2 \<le> length (filter P vars) \<Longrightarrow> \<exists>s\<in>set vars. P s"
  by (cases "filter P vars") (auto simp: filter_eq_Cons_iff)

text \<open>
  Where the check is reached with a list that holds two or more entries not marked
  filled, every entry of the list is printed and then the run is aborted once, in
  multiply and in create alike.
\<close>

lemma missing_fields_reported:
  "(\<not> noGSI self \<and>
    multiply_needvrs self names bundle_has fieldsets = Some needvrs \<and>
    2 \<le> length (filter (\<lambda>s. take 6 s \<noteq> ''filled'') needvrs) \<longrightarrow>
      (\<exists>printed.
         multiply_adm self names bundle_has fieldsets =
           Some (printed, Some ''gsi_covariance_mod*multiply: missing fields in cv(adm) '') \<and>
         length printed = length needvrs \<and>
         (\<forall>s\<in>set needvrs. take 6 s \<noteq> ''filled'' \<longrightarrow>
            [''gsi_covariance_mod*multiply'', ''*adm:: '', trim s] \<in> set printed))) \<and>
   (2 \<le> length (filter (\<lambda>s. take 6 s \<noteq> ''filled'')
           (create_tbdvars gsiguess_bkgcov_init tbdvars0 gsivars usrvars firstguess)) \<longrightarrow>
      snd (create_check gsiguess_bkgcov_init tbdvars0 gsivars usrvars firstguess) =
        Some ''gsi_covariance_mod*create: missing fields in fg '' \<and>
      (\<forall>s\<in>set (create_tbdvars gsiguess_bkgcov_init tbdvars0 gsivars usrvars firstguess).
         take 6 s \<noteq> ''filled'' \<longrightarrow>
         [''gsi_covariance_mod*create'', '' '', trim s]
           \<in> set (fst (create_check gsiguess_bkgcov_init tbdvars0 gsivars usrvars firstguess))))"
proof (intro conjI impI)
  assume a: "\<not> noGSI self \<and>
    multiply_needvrs self names bundle_has fieldsets = Some needvrs \<and>
    2 \<le> length (filter (\<lambda>s. take 6 s \<noteq> ''filled'') needvrs)"
  then have "\<exists>s\<in>set needvrs. take 6 s \<noteq> ''filled''" using two_unfilled_some by blast
  from report_missing_aborts[OF this] a
  have r: "multiply_adm self names bundle_has fieldsets =
      Some (map (\<lambda>s. [''gsi_covariance_mod*multiply'', ''*adm:: '', trim s]) needvrs,
            Some (''gsi_covariance_mod*multiply'' @ '': missing fields in cv(adm) ''))"
    by (simp add: multiply_adm_def)
  show "\<exists>printed.
         multiply_adm self names bundle_has fieldsets =
           Some (printed, Some ''gsi_covariance_mod*multiply: missing fields in cv(adm) '') \<and>
         length printed = length needvrs \<and>
         (\<forall>s\<in>set needvrs. take 6 s \<noteq> ''filled'' \<longrightarrow>
            [''gsi_covariance_mod*multiply'', ''*adm:: '', trim s] \<in> set printed)"
    unfolding r by simp
next
  let ?tbd = "create_tbdvars gsiguess_bkgcov_init tbdvars0 gsivars usrvars firstguess"
  assume a: "2 \<le> length (filter (\<lambda>s. take 6 s \<noteq> ''filled'') ?tbd)"
  then have ex: "\<exists>s\<in>set ?tbd. take 6 s \<noteq> ''filled''" using two_unfilled_some by blast
  then have "0 < length ?tbd" by auto
  with report_missing_aborts[OF ex]
  have r: "create_check gsiguess_bkgcov_init tbdvars0 gsivars usrvars firstguess =
      (map (\<lambda>s. [''gsi_covariance_mod*create'', '' '', trim s]) ?tbd,
       Some (''gsi_covariance_mod*create'' @ '': missing fields in fg ''))"
    by (simp add: create_check_def Let_def)
  show "snd (create_check gsiguess_bkgcov_init tbdvars0 gsivars usrvars firstguess) =
        Some ''gsi_covariance_mod*create: missing fields in fg ''"
    unfolding r by simp
  show "\<forall>s\<in>set ?tbd. take 6 s \<noteq> ''filled'' \<longrightarrow>
         [''gsi_covariance_mod*create'', '' '', trim s]
           \<in> set (fst (create_check gsiguess_bkgcov_init tbdvars0 gsivars usrvars firstguess))"
    unfolding r by simp
qed

text \<open>
  C9. The check is not always reached. For a state vector that needs ps, tv and q, with
  only the specific humidity in the field set, the conversion loops leave ps and tv
  unfilled. svfix_ then finds tv in the list, looks up the atlas field of t, which is
  absent, does not test ier and reads through the pointer that get_rank2_ did not set:
  what multiply does from there is undefined, and nothing has been printed.
\<close>

theorem missing_fields_undefined_read:
  "multiply_tbdvars example_state tv_names (\<lambda>ii v. True) [example_humidity] =
     [''ps                            '', ''tv                            '',
      ''filled-q                      ''] \<and>
   length (filter (\<lambda>s. take 6 s \<noteq> ''filled'')
            (multiply_tbdvars example_state tv_names (\<lambda>ii v. True) [example_humidity])) = 2 \<and>
   get_rank2 example_humidity ''t'' = - 1 \<and>
   multiply_needvrs example_state tv_names (\<lambda>ii v. True) [example_humidity] = None \<and>
   multiply_adm example_state tv_names (\<lambda>ii v. True) [example_humidity] = None"
proof -
  have a: "multiply_tbdvars example_state tv_names (\<lambda>ii v. True) [example_humidity] =
     [''ps                            '', ''tv                            '',
      ''filled-q                      '']"
    by code_simp
  have b: "length (filter (\<lambda>s. take 6 s \<noteq> ''filled'')
            (multiply_tbdvars example_state tv_names (\<lambda>ii v. True) [example_humidity])) = 2"
    unfolding a by simp
  have c: "get_rank2 example_humidity ''t'' = - 1" by code_simp
  have d: "multiply_needvrs example_state tv_names (\<lambda>ii v. True) [example_humidity] = None"
    by code_simp
  have e: "multiply_adm example_state tv_names (\<lambda>ii v. True) [example_humidity] = None"
    by code_simp
  from a b c d e show ?thesis by (intro conjI)
qed

end
